theory Spec2Isabelle
  imports Main "HOL-Library.Sublist"
begin

section \<open>The container command runner of \<^verbatim>\<open>src/lib/docker.ts\<close>\<close>

subsection \<open>Values, command results and thrown errors\<close>

text \<open>
  The fields \<^verbatim>\<open>stdout\<close> and \<^verbatim>\<open>stderr\<close> of a rejected command are read from a caught
  value of type \<^verbatim>\<open>any\<close>, and \<^verbatim>\<open>runSafe\<close> asks \<^verbatim>\<open>typeof stderr === "string"\<close>. So a
  field is a JavaScript value whose type is part of the model, not a string.
\<close>

datatype jsval =
    JUndefined
  | JNull
  | JBool bool
  | JNum int
  | JStr string
  | JBuffer string

text \<open>
  The result of a command, \<^verbatim>\<open>{ stdout, stderr }\<close>. A thrown error is an object that may
  carry the same two fields besides its message, so it extends the record: \<open>stderr error\<close>
  reads \<^verbatim>\<open>error.stderr\<close>, and an absent field reads \<open>JUndefined\<close>.
\<close>

record CmdOutput =
  stdout :: jsval
  stderr :: jsval

record thrown = CmdOutput +
  message :: string

text \<open>The object of class \<^verbatim>\<open>Docker\<close>: the constructor's two private fields.\<close>

record Docker =
  targetImage :: string
  optionsList :: "string list"

text \<open>
  Modelled from the spec: \<^verbatim>\<open>subProcess.execute\<close> of \<^verbatim>\<open>./sub-process\<close>, which is not among
  the sources. Spec section 6: it accepts a command name and an argument list and returns
  \<^verbatim>\<open>{stdout, stderr}\<close> or raises. The collaborator is a parameter \<open>ex\<close> of every function
  that reaches it; \<open>execute\<close> applies it and appends the invocation to the list of calls
  issued so far, which is how a statement about the calls a scan makes is read off.
\<close>

type_synonym executor = "string \<Rightarrow> string list \<Rightarrow> thrown + CmdOutput"

type_synonym call = "string \<times> string list"

definition execute ::
  "executor \<Rightarrow> string \<Rightarrow> string list \<Rightarrow> call list \<Rightarrow> (thrown + CmdOutput) \<times> call list" where
  "execute ex command args calls = (ex command args, calls @ [(command, args)])"

text \<open>
  \<^verbatim>\<open>Docker.run(cmd, args)\<close>, lines 93-106. The entrypoint argument is the two-character
  string \<^verbatim>\<open>""\<close>.
\<close>

definition runArgs :: "Docker \<Rightarrow> string \<Rightarrow> string list \<Rightarrow> string list" where
  "runArgs d cmd args =
     optionsList d
     @ [''run'', ''--rm'', ''--entrypoint'', [CHR 0x22, CHR 0x22], ''--network'', ''none'',
        targetImage d, cmd]
     @ args"

definition run ::
  "Docker \<Rightarrow> executor \<Rightarrow> string \<Rightarrow> string list \<Rightarrow> call list
     \<Rightarrow> (thrown + CmdOutput) \<times> call list" where
  "run d ex cmd args calls = execute ex ''docker'' (runArgs d cmd args) calls"

subsection \<open>String search\<close>

text \<open>
  \<^verbatim>\<open>String.prototype.indexOf(searchString)\<close>: the index of the first occurrence, or \<open>-1\<close>.
  The comparison is by character, so it is case-sensitive.
\<close>

fun indexOf_from :: "string \<Rightarrow> string \<Rightarrow> nat \<Rightarrow> int" where
  "indexOf_from [] searchString k = (if searchString = [] then int k else - 1)"
| "indexOf_from (c # rest) searchString k =
     (if prefix searchString (c # rest) then int k
      else indexOf_from rest searchString (Suc k))"

definition indexOf :: "string \<Rightarrow> string \<Rightarrow> int" where
  "indexOf s searchString = indexOf_from s searchString 0"

subsection \<open>runSafe, catSafe, lsSafe\<close>

text \<open>
  \<^verbatim>\<open>runSafe\<close>, lines 74-91. The default of its third parameter is a constant of its own;
  a caller that omits the argument passes it.
\<close>

definition runSafe_ignoreErrors_default :: "string list" where
  "runSafe_ignoreErrors_default = [''No such file'', ''file not found'']"

definition runSafe ::
  "Docker \<Rightarrow> executor \<Rightarrow> string \<Rightarrow> string list \<Rightarrow> string list \<Rightarrow> call list
     \<Rightarrow> (thrown + CmdOutput) \<times> call list" where
  "runSafe d ex cmd args ignoreErrors calls =
     (case run d ex cmd args calls of
        (Inr out, calls') \<Rightarrow> (Inr out, calls')
      | (Inl error, calls') \<Rightarrow>
          (case stderr error of
             JStr s \<Rightarrow>
               if list_ex (\<lambda>errMsg. indexOf s errMsg \<ge> 0) ignoreErrors
               then (Inr \<lparr>stdout = stdout error, stderr = JStr s\<rparr>, calls')
               else (Inl error, calls')
           | _ \<Rightarrow> (Inl error, calls')))"

definition catSafe ::
  "Docker \<Rightarrow> executor \<Rightarrow> string \<Rightarrow> call list \<Rightarrow> (thrown + CmdOutput) \<times> call list" where
  "catSafe d ex filename calls = runSafe d ex ''cat'' [filename] runSafe_ignoreErrors_default calls"

definition lsParams :: "bool \<Rightarrow> string" where
  "lsParams recursive = ''-1ap'' @ (if recursive then ''R'' else [])"

definition lsSafe ::
  "Docker \<Rightarrow> executor \<Rightarrow> string \<Rightarrow> bool \<Rightarrow> call list \<Rightarrow> (thrown + CmdOutput) \<times> call list" where
  "lsSafe d ex path recursive calls =
     runSafe d ex ''ls'' [lsParams recursive, path]
       [''No such file'', ''file not found'', ''Permission denied''] calls"

section \<open>The directory tree and its walker\<close>

text \<open>
  \<^verbatim>\<open>lsu.DiscoveredDirectory\<close> and its file entries, of \<^verbatim>\<open>./ls-utils\<close> (not among the
  sources). Spec section 3: an entry has a name and the path of its parent; a directory owns
  its files and its subdirectories, with no sharing and no cycle, so it is a tree. The code
  reads \<^verbatim>\<open>subdir.name\<close>, \<^verbatim>\<open>subDirs\<close>, \<^verbatim>\<open>files\<close>, \<^verbatim>\<open>f.path\<close> and \<^verbatim>\<open>f.name\<close>.
\<close>

record DiscoveredFile =
  name :: string
  path :: string

datatype DiscoveredDirectory =
  Dir (dirName: string) (subDirs: "DiscoveredDirectory list") (files: "DiscoveredFile list")

text \<open>
  Modelled from the spec: \<^verbatim>\<open>lsu.iterateFiles\<close>, the tree walker of spec section 4.2, which
  is not among the sources. It is a depth-first traversal that calls the visitor once on
  every file entry, a directory's files before its subdirectories and the subdirectories in
  listing order; the visitor may assign the entry's \<^verbatim>\<open>path\<close> in place. The visitor here
  takes the entry and the variables its closure captures, and returns both as it leaves
  them; the walker returns the tree with the entries as the visitor left them.
\<close>

fun forEachFile ::
  "(DiscoveredFile \<Rightarrow> 's \<Rightarrow> DiscoveredFile \<times> 's) \<Rightarrow> DiscoveredFile list \<Rightarrow> 's
     \<Rightarrow> DiscoveredFile list \<times> 's" where
  "forEachFile iterator [] s = ([], s)"
| "forEachFile iterator (f # fs) s =
     (case iterator f s of (f', s1) \<Rightarrow>
        (case forEachFile iterator fs s1 of (fs', s2) \<Rightarrow> (f' # fs', s2)))"

fun iterateFiles ::
  "DiscoveredDirectory \<Rightarrow> (DiscoveredFile \<Rightarrow> 's \<Rightarrow> DiscoveredFile \<times> 's) \<Rightarrow> 's
     \<Rightarrow> DiscoveredDirectory \<times> 's"
and iterateSubDirs ::
  "DiscoveredDirectory list \<Rightarrow> (DiscoveredFile \<Rightarrow> 's \<Rightarrow> DiscoveredFile \<times> 's) \<Rightarrow> 's
     \<Rightarrow> DiscoveredDirectory list \<times> 's" where
  "iterateFiles (Dir n sds fs) iterator s =
     (case forEachFile iterator fs s of (fs', s1) \<Rightarrow>
        (case iterateSubDirs sds iterator s1 of (sds', s2) \<Rightarrow> (Dir n sds' fs', s2)))"
| "iterateSubDirs [] iterator s = ([], s)"
| "iterateSubDirs (d # ds) iterator s =
     (case iterateFiles d iterator s of (d', s1) \<Rightarrow>
        (case iterateSubDirs ds iterator s1 of (ds', s2) \<Rightarrow> (d' # ds', s2)))"

text \<open>The file entries of a tree in the order the walker visits them.\<close>

fun allFiles :: "DiscoveredDirectory \<Rightarrow> DiscoveredFile list" where
  "allFiles (Dir n sds fs) = fs @ concat (map allFiles sds)"

text \<open>A tree with a function applied to every file entry.\<close>

fun mapFiles :: "(DiscoveredFile \<Rightarrow> DiscoveredFile) \<Rightarrow> DiscoveredDirectory \<Rightarrow> DiscoveredDirectory" where
  "mapFiles g (Dir n sds fs) = Dir n (map (mapFiles g) sds) (map g fs)"

section \<open>findGlobs\<close>

record Globs =
  manifestGlobs :: "string list option"
  binaryGlobs :: "string list option"

record FindGlobsResult =
  manifestFiles :: "string list"
  binaryFiles :: "string list"

definition SystemDirectories :: "string list" where
  "SystemDirectories = [''dev'', ''proc'', ''sys'']"

text \<open>
  \<^verbatim>\<open>checkMatch\<close>, lines 284-300. The empty string is the only falsy \<^verbatim>\<open>filePath\<close>; a falsy
  \<^verbatim>\<open>globsArr\<close> is an absent array, \<open>None\<close>. The matcher \<^verbatim>\<open>minimatch\<close> is a library outside
  the repository and is the parameter \<open>minimatch\<close>: a path and a glob give a boolean.
\<close>

fun checkMatch_loop :: "(string \<Rightarrow> string \<Rightarrow> bool) \<Rightarrow> string \<Rightarrow> string list \<Rightarrow> bool" where
  "checkMatch_loop minimatch filePath [] = False"
| "checkMatch_loop minimatch filePath (g # gs) =
     (if minimatch filePath g then True else checkMatch_loop minimatch filePath gs)"

definition checkMatch ::
  "(string \<Rightarrow> string \<Rightarrow> bool) \<Rightarrow> string \<Rightarrow> string list option \<Rightarrow> bool" where
  "checkMatch minimatch filePath globsArr =
     (if filePath = [] then False
      else case globsArr of
             None \<Rightarrow> False
           | Some gs \<Rightarrow> checkMatch_loop minimatch filePath gs)"

text \<open>
  The loop of lines 226-231 over the exclusion globs: \<^verbatim>\<open>exclude\<close> starts false and is set
  once a glob matches; the matcher is not called again after that.
\<close>

fun exclusion_loop :: "(string \<Rightarrow> string \<Rightarrow> bool) \<Rightarrow> string \<Rightarrow> string list \<Rightarrow> bool \<Rightarrow> bool" where
  "exclusion_loop minimatch filePath [] exclude = exclude"
| "exclusion_loop minimatch filePath (g # gs) exclude =
     exclusion_loop minimatch filePath gs
       (if \<not> exclude \<and> minimatch filePath g then True else exclude)"

text \<open>
  The visitor of lines 224-246. It captures \<^verbatim>\<open>result\<close> and leaves the entry as it is.
  \<^verbatim>\<open>fspath.join\<close> belongs to the runtime's library and is the parameter \<open>join\<close>.
\<close>

definition findGlobs_visit ::
  "(string \<Rightarrow> string \<Rightarrow> bool) \<Rightarrow> (string \<Rightarrow> string \<Rightarrow> string) \<Rightarrow> Globs \<Rightarrow> string list
     \<Rightarrow> DiscoveredFile \<Rightarrow> FindGlobsResult \<Rightarrow> DiscoveredFile \<times> FindGlobsResult" where
  "findGlobs_visit minimatch join globs exclusionGlobs f result =
     (let filePath = join (path f) (name f);
          exclude = exclusion_loop minimatch filePath exclusionGlobs False
      in if exclude then (f, result)
         else if checkMatch minimatch filePath (manifestGlobs globs)
           then (f, result\<lparr>manifestFiles := manifestFiles result @ [filePath]\<rparr>)
         else if checkMatch minimatch filePath (binaryGlobs globs)
           then (f, result\<lparr>binaryFiles := binaryFiles result @ [filePath]\<rparr>)
         else (f, result))"

text \<open>
  The visitor of lines 207-209, which re-roots an entry under the subdirectory \<open>subdir\<close>.
  It captures nothing that it changes.
\<close>

definition findGlobs_reroot :: "string \<Rightarrow> DiscoveredFile \<Rightarrow> unit \<Rightarrow> DiscoveredFile \<times> unit" where
  "findGlobs_reroot subdirName f u = (f\<lparr>path := ''/'' @ subdirName @ path f\<rparr>, u)"

text \<open>
  The loop of lines 199-213 over \<^verbatim>\<open>root.subDirs\<close>. The parser \<^verbatim>\<open>lsu.parseLsOutput\<close> is not
  among the sources and is the parameter \<open>parseLsOutput\<close>; it is applied to whatever value
  the \<^verbatim>\<open>stdout\<close> field holds and may throw. An excluded subdirectory is left as the root
  listing gave it; any other has its \<^verbatim>\<open>subDirs\<close> and \<^verbatim>\<open>files\<close> replaced. A throw leaves
  the loop and the function.
\<close>

fun findGlobs_subdirs ::
  "Docker \<Rightarrow> executor \<Rightarrow> (jsval \<Rightarrow> thrown + DiscoveredDirectory) \<Rightarrow> string list
     \<Rightarrow> DiscoveredDirectory list \<Rightarrow> call list
     \<Rightarrow> (thrown + DiscoveredDirectory list) \<times> call list" where
  "findGlobs_subdirs d ex parseLsOutput excludeRootDirectories [] calls = (Inr [], calls)"
| "findGlobs_subdirs d ex parseLsOutput excludeRootDirectories (subdir # rest) calls =
     (if dirName subdir \<in> set excludeRootDirectories then
        (case findGlobs_subdirs d ex parseLsOutput excludeRootDirectories rest calls of
           (Inl e, calls') \<Rightarrow> (Inl e, calls')
         | (Inr rest', calls') \<Rightarrow> (Inr (subdir # rest'), calls'))
      else
        (case lsSafe d ex (''/'' @ dirName subdir) True calls of
           (Inl e, calls1) \<Rightarrow> (Inl e, calls1)
         | (Inr subdirOutput, calls1) \<Rightarrow>
             (case parseLsOutput (stdout subdirOutput) of
                Inl e \<Rightarrow> (Inl e, calls1)
              | Inr subdirRecursive0 \<Rightarrow>
                  (let subdirRecursive =
                         fst (iterateFiles subdirRecursive0 (findGlobs_reroot (dirName subdir)) ());
                       subdir' = Dir (dirName subdir) (subDirs subdirRecursive) (files subdirRecursive)
                   in case findGlobs_subdirs d ex parseLsOutput excludeRootDirectories rest calls1 of
                        (Inl e, calls') \<Rightarrow> (Inl e, calls')
                      | (Inr rest', calls') \<Rightarrow> (Inr (subdir' # rest'), calls')))))"

text \<open>
  The tree that lines 191-222 build: the spliced root tree when the scan is recursive from
  \<^verbatim>\<open>"/"\<close>, one listing of the path otherwise. The yield to the event loop of lines 217-219
  changes no value and has no counterpart here.
\<close>

definition findGlobs_tree ::
  "Docker \<Rightarrow> executor \<Rightarrow> (jsval \<Rightarrow> thrown + DiscoveredDirectory) \<Rightarrow> string \<Rightarrow> bool
     \<Rightarrow> string list \<Rightarrow> call list \<Rightarrow> (thrown + DiscoveredDirectory) \<times> call list" where
  "findGlobs_tree d ex parseLsOutput scanPath recursive excludeRootDirectories calls =
     (if recursive \<and> scanPath = ''/'' then
        (case lsSafe d ex ''/'' False calls of
           (Inl e, calls1) \<Rightarrow> (Inl e, calls1)
         | (Inr outputRoot, calls1) \<Rightarrow>
             (case parseLsOutput (stdout outputRoot) of
                Inl e \<Rightarrow> (Inl e, calls1)
              | Inr root \<Rightarrow>
                  (case findGlobs_subdirs d ex parseLsOutput excludeRootDirectories
                          (subDirs root) calls1 of
                     (Inl e, calls2) \<Rightarrow> (Inl e, calls2)
                   | (Inr sds, calls2) \<Rightarrow> (Inr (Dir (dirName root) sds (files root)), calls2))))
      else
        (case lsSafe d ex scanPath recursive calls of
           (Inl e, calls1) \<Rightarrow> (Inl e, calls1)
         | (Inr output, calls1) \<Rightarrow>
             (case parseLsOutput (stdout output) of
                Inl e \<Rightarrow> (Inl e, calls1)
              | Inr root \<Rightarrow> (Inr root, calls1))))"

text \<open>
  \<^verbatim>\<open>findGlobs\<close>, lines 177-249, with every parameter passed (\<open>scanPath\<close> is its parameter \<^verbatim>\<open>path\<close>): the defaults
  of the source are \<open>[]\<close>, \<^verbatim>\<open>"/"\<close>, \<open>True\<close> and \<open>SystemDirectories\<close>.
\<close>

definition findGlobs ::
  "Docker \<Rightarrow> executor \<Rightarrow> (jsval \<Rightarrow> thrown + DiscoveredDirectory)
     \<Rightarrow> (string \<Rightarrow> string \<Rightarrow> bool) \<Rightarrow> (string \<Rightarrow> string \<Rightarrow> string)
     \<Rightarrow> Globs \<Rightarrow> string list \<Rightarrow> string \<Rightarrow> bool \<Rightarrow> string list \<Rightarrow> call list
     \<Rightarrow> (thrown + FindGlobsResult) \<times> call list" where
  "findGlobs d ex parseLsOutput minimatch join globs exclusionGlobs scanPath recursive
       excludeRootDirectories calls =
     (case findGlobs_tree d ex parseLsOutput scanPath recursive excludeRootDirectories calls of
        (Inl e, calls') \<Rightarrow> (Inl e, calls')
      | (Inr root, calls') \<Rightarrow>
          (Inr (snd (iterateFiles root (findGlobs_visit minimatch join globs exclusionGlobs)
                       \<lparr>manifestFiles = [], binaryFiles = []\<rparr>)),
           calls'))"

section \<open>calcHashOfBinaryFiles\<close>

text \<open>
  \<^verbatim>\<open>BinaryFileData\<close> of \<^verbatim>\<open>./types\<close>, as the object literal of lines 271-276 builds it.
  TypeScript's object types are structural: it has the two fields of a file entry and two
  more.
\<close>

record BinaryFileData = DiscoveredFile +
  hashType :: string
  hash :: string

text \<open>
  What the callback of a streamed command receives, read as \<^verbatim>\<open>{ data, err, exitCode }\<close> on
  line 264; each field may be absent.
\<close>

record StreamData =
  data :: "string option"
  err :: "string option"
  exitCode :: "int option"

text \<open>
  Modelled from the spec: \<^verbatim>\<open>subProcess.executeAsStream\<close> of \<^verbatim>\<open>./sub-process\<close>, which is not
  among the sources. Spec sections 4.4 and 6: the streaming variant of the runner calls the
  callback once per chunk with \<^verbatim>\<open>{data?, error?, exitCode?}\<close>; the exit code reaches the
  caller as a chunk, and the spec gives the variant no failure of its own. The collaborator
  is the parameter \<open>sx\<close>: the chunks it delivers, in order, for a command and its arguments.
\<close>

type_synonym streamer = "string \<Rightarrow> string list \<Rightarrow> StreamData list"

definition executeAsStream ::
  "streamer \<Rightarrow> string \<Rightarrow> (StreamData \<Rightarrow> 's \<Rightarrow> 's) \<Rightarrow> string list \<Rightarrow> 's \<Rightarrow> 's" where
  "executeAsStream sx command cb args s = fold cb (sx command args) s"

definition runAsStream ::
  "Docker \<Rightarrow> streamer \<Rightarrow> string \<Rightarrow> string list \<Rightarrow> (StreamData \<Rightarrow> 's \<Rightarrow> 's) \<Rightarrow> 's \<Rightarrow> 's" where
  "runAsStream d sx cmd args cb s = executeAsStream sx ''docker'' cb (runArgs d cmd args) s"

definition catBinarySafe ::
  "Docker \<Rightarrow> streamer \<Rightarrow> string \<Rightarrow> (StreamData \<Rightarrow> 's \<Rightarrow> 's) \<Rightarrow> 's \<Rightarrow> 's" where
  "catBinarySafe d sx filename cb s = runAsStream d sx ''cat'' [filename] cb s"

text \<open>
  The object \<^verbatim>\<open>crypto.Hash\<close> of the runtime: its algorithm and the bytes it was updated
  with. The digest is a function of the two and is the parameter \<open>hexdigest\<close> of the
  functions below. The runtime refuses a second \<^verbatim>\<open>digest\<close> and an \<^verbatim>\<open>update\<close> after one;
  neither happens when the exit code is the last chunk of a stream, which is what the
  statements about complete streams assume.
\<close>

record Hash =
  algorithm :: string
  updated :: string

definition createHash :: "string \<Rightarrow> Hash" where
  "createHash hashType0 = \<lparr>algorithm = hashType0, updated = []\<rparr>"

definition hash_update :: "Hash \<Rightarrow> string \<Rightarrow> Hash" where
  "hash_update h bytes = h\<lparr>updated := updated h @ bytes\<rparr>"

definition hash_digest :: "(string \<Rightarrow> string \<Rightarrow> string) \<Rightarrow> Hash \<Rightarrow> string" where
  "hash_digest hexdigest h = hexdigest (algorithm h) (updated h)"

text \<open>
  \<^verbatim>\<open>options\<close> has type \<^verbatim>\<open>any\<close>; line 258 reads it and its field \<^verbatim>\<open>hashType\<close> for
  truthiness. An absent object is \<open>None\<close>, an absent field is \<open>None\<close>, and the empty string
  is falsy. The constant \<^verbatim>\<open>HASH_ALGORITHM_SHA1\<close> of \<^verbatim>\<open>./stream-utils\<close> is not among the
  sources and is a parameter.
\<close>

datatype HashOptions = HashOptions (optionsHashType: "string option")

definition calcHash_hashType :: "string \<Rightarrow> HashOptions option \<Rightarrow> string" where
  "calcHash_hashType HASH_ALGORITHM_SHA1 options =
     (case options of
        None \<Rightarrow> HASH_ALGORITHM_SHA1
      | Some opts \<Rightarrow>
          (case optionsHashType opts of
             None \<Rightarrow> HASH_ALGORITHM_SHA1
           | Some t \<Rightarrow> if t \<noteq> [] then t else HASH_ALGORITHM_SHA1))"

text \<open>
  The callback of lines 263-278. It captures \<^verbatim>\<open>hash\<close> and \<^verbatim>\<open>resultArr\<close>. The chunk's data
  is a buffer, truthy whenever present; \<^verbatim>\<open>err\<close> is truthy when present and not empty.
  \<^verbatim>\<open>path.basename\<close> and \<^verbatim>\<open>path.dirname\<close> belong to the runtime's library and are the
  parameters \<open>basename\<close> and \<open>dirname\<close>.
\<close>

definition isTruthy :: "string option \<Rightarrow> bool" where
  "isTruthy v = (case v of None \<Rightarrow> False | Some t \<Rightarrow> t \<noteq> [])"

definition calcHash_callback ::
  "(string \<Rightarrow> string \<Rightarrow> string) \<Rightarrow> (string \<Rightarrow> string) \<Rightarrow> (string \<Rightarrow> string) \<Rightarrow> string \<Rightarrow> string
     \<Rightarrow> StreamData \<Rightarrow> Hash \<times> BinaryFileData list \<Rightarrow> Hash \<times> BinaryFileData list" where
  "calcHash_callback hexdigest basename dirname file hashType0 sd st =
     (case st of (hash0, resultArr) \<Rightarrow>
        (let hash1 = (case data sd of
                        Some bytes \<Rightarrow> if \<not> isTruthy (err sd) then hash_update hash0 bytes else hash0
                      | None \<Rightarrow> hash0)
         in if exitCode sd = Some 0
            then (hash1,
                  resultArr @ [\<lparr>name = basename file, path = dirname file, hashType = hashType0,
                                hash = hash_digest hexdigest hash1\<rparr>])
            else (hash1, resultArr)))"

text \<open>The loop of lines 260-279 over \<^verbatim>\<open>files\<close>, each with a hash object of its own.\<close>

fun calcHash_loop ::
  "Docker \<Rightarrow> streamer \<Rightarrow> (string \<Rightarrow> string \<Rightarrow> string) \<Rightarrow> (string \<Rightarrow> string) \<Rightarrow> (string \<Rightarrow> string)
     \<Rightarrow> string \<Rightarrow> string list \<Rightarrow> BinaryFileData list \<Rightarrow> BinaryFileData list" where
  "calcHash_loop d sx hexdigest basename dirname hashType0 [] resultArr = resultArr"
| "calcHash_loop d sx hexdigest basename dirname hashType0 (file # rest) resultArr =
     calcHash_loop d sx hexdigest basename dirname hashType0 rest
       (snd (catBinarySafe d sx file
               (calcHash_callback hexdigest basename dirname file hashType0)
               (createHash hashType0, resultArr)))"

definition calcHashOfBinaryFiles ::
  "Docker \<Rightarrow> streamer \<Rightarrow> (string \<Rightarrow> string \<Rightarrow> string) \<Rightarrow> (string \<Rightarrow> string) \<Rightarrow> (string \<Rightarrow> string)
     \<Rightarrow> string \<Rightarrow> string list \<Rightarrow> HashOptions option \<Rightarrow> BinaryFileData list" where
  "calcHashOfBinaryFiles d sx hexdigest basename dirname HASH_ALGORITHM_SHA1 files0 options =
     calcHash_loop d sx hexdigest basename dirname
       (calcHash_hashType HASH_ALGORITHM_SHA1 options) files0 []"

section \<open>Notions the statements use\<close>

text \<open>The chunks that \<^verbatim>\<open>cat\<close> of a file delivers.\<close>

definition fileStream :: "Docker \<Rightarrow> streamer \<Rightarrow> string \<Rightarrow> StreamData list" where
  "fileStream d sx file = sx ''docker'' (runArgs d ''cat'' [file])"

text \<open>
  A stream reports its exit code once, as its last chunk: no chunk before the last carries
  one.
\<close>

definition exitCodeLast :: "StreamData list \<Rightarrow> bool" where
  "exitCodeLast chunks = list_all (\<lambda>sd. exitCode sd = None) (butlast chunks)"

text \<open>A clean successful completion: the stream ends with exit code 0.\<close>

definition completedCleanly :: "StreamData list \<Rightarrow> bool" where
  "completedCleanly chunks = (chunks \<noteq> [] \<and> exitCode (last chunks) = Some 0)"

text \<open>The bytes a stream contributes to the digest: those of the chunks with no error flagged.\<close>

definition hashedBytes :: "StreamData list \<Rightarrow> string" where
  "hashedBytes chunks =
     concat (map (\<lambda>sd. case data sd of
                          Some bytes \<Rightarrow> if isTruthy (err sd) then [] else bytes
                        | None \<Rightarrow> [])
                 chunks)"

text \<open>The record of a file whose stream was \<open>chunks\<close>.\<close>

definition recordOf ::
  "(string \<Rightarrow> string \<Rightarrow> string) \<Rightarrow> (string \<Rightarrow> string) \<Rightarrow> (string \<Rightarrow> string) \<Rightarrow> string
     \<Rightarrow> string \<Rightarrow> StreamData list \<Rightarrow> BinaryFileData" where
  "recordOf hexdigest basename dirname hashType0 file chunks =
     \<lparr>name = basename file, path = dirname file, hashType = hashType0,
      hash = hexdigest hashType0 (hashedBytes chunks)\<rparr>"

text \<open>The \<^verbatim>\<open>stderr\<close> of an error is a string in which the pattern occurs.\<close>

definition stderrContains :: "thrown \<Rightarrow> string \<Rightarrow> bool" where
  "stderrContains error errMsg = (case stderr error of JStr s \<Rightarrow> sublist errMsg s | _ \<Rightarrow> False)"

text \<open>The invocation that lists a path, recursively or not.\<close>

definition lsCall :: "Docker \<Rightarrow> string \<Rightarrow> bool \<Rightarrow> call" where
  "lsCall d p recursive = (''docker'', runArgs d ''ls'' [lsParams recursive, p])"

text \<open>What a listing gives a scan: the \<^verbatim>\<open>stdout\<close> of \<^verbatim>\<open>lsSafe\<close>, or nothing when it throws.\<close>

definition listingOutput :: "Docker \<Rightarrow> executor \<Rightarrow> string \<Rightarrow> bool \<Rightarrow> jsval option" where
  "listingOutput d ex p recursive =
     (case fst (lsSafe d ex p recursive []) of Inl e \<Rightarrow> None | Inr out \<Rightarrow> Some (stdout out))"

text \<open>The full path the visitor computes for an entry (line 225).\<close>

definition fullPath :: "(string \<Rightarrow> string \<Rightarrow> string) \<Rightarrow> DiscoveredFile \<Rightarrow> string" where
  "fullPath join f = join (path f) (name f)"

text \<open>An entry as the re-rooting visitor leaves it (line 208).\<close>

definition rerooted :: "string \<Rightarrow> DiscoveredFile \<Rightarrow> DiscoveredFile" where
  "rerooted subdirName f = f\<lparr>path := ''/'' @ subdirName @ path f\<rparr>"

text \<open>What a call gives when it returns, and nothing when it throws.\<close>

definition returned :: "'e + 'a \<Rightarrow> 'a option" where
  "returned r = (case r of Inl e \<Rightarrow> None | Inr v \<Rightarrow> Some v)"

text \<open>
  The result of running the classifying visitor over a list of entries, from empty lists.
\<close>

definition classified ::
  "(string \<Rightarrow> string \<Rightarrow> bool) \<Rightarrow> (string \<Rightarrow> string \<Rightarrow> string) \<Rightarrow> Globs \<Rightarrow> string list
     \<Rightarrow> DiscoveredFile list \<Rightarrow> FindGlobsResult" where
  "classified minimatch join globs exclusionGlobs fs =
     fold (\<lambda>f r. snd (findGlobs_visit minimatch join globs exclusionGlobs f r)) fs
       \<lparr>manifestFiles = [], binaryFiles = []\<rparr>"

section \<open>A small image for concrete runs\<close>

text \<open>
  An image with \<^verbatim>\<open>/app\<close>, \<^verbatim>\<open>/proc\<close> and \<^verbatim>\<open>/usr\<close>; listing \<^verbatim>\<open>/usr\<close> fails with a
  tolerated error after partial output. The parser is a table from the listings of this
  image to their trees. A glob of this example matches the paths that end with it, and
  joining puts one slash between the directory and the name.
\<close>

definition alpine :: Docker where
  "alpine = \<lparr>targetImage = ''alpine'', optionsList = [''--host=tcp://127.0.0.1:2375'']\<rparr>"

definition mockListings :: executor where
  "mockListings command args =
     (if args = runArgs alpine ''ls'' [''-1ap'', ''/'']
        then Inr \<lparr>stdout = JStr ''./\<newline>../\<newline>.dockerenv\<newline>app/\<newline>proc/\<newline>usr/'', stderr = JStr []\<rparr>
      else if args = runArgs alpine ''ls'' [''-1apR'', ''/app'']
        then Inr \<lparr>stdout = JStr ''/app:\<newline>package.json\<newline>vendor/\<newline>\<newline>/app/vendor:\<newline>package.json'',
                  stderr = JStr []\<rparr>
      else if args = runArgs alpine ''ls'' [''-1apR'', ''/usr'']
        then Inl \<lparr>stdout = JStr ''/usr:\<newline>bin/\<newline>\<newline>/usr/bin:\<newline>node'',
                  stderr = JStr ''ls: /usr/lost+found: Permission denied'', message = []\<rparr>
      else Inl \<lparr>stdout = JStr [], stderr = JStr ''ls: No such file or directory'', message = []\<rparr>)"

definition mockParse :: "jsval \<Rightarrow> thrown + DiscoveredDirectory" where
  "mockParse out =
     (if out = JStr ''./\<newline>../\<newline>.dockerenv\<newline>app/\<newline>proc/\<newline>usr/''
        then Inr (Dir ''/'' [Dir ''app'' [] [], Dir ''proc'' [] [], Dir ''usr'' [] []]
                    [\<lparr>name = ''.dockerenv'', path = ''/''\<rparr>])
      else if out = JStr ''/app:\<newline>package.json\<newline>vendor/\<newline>\<newline>/app/vendor:\<newline>package.json''
        then Inr (Dir ''/'' [Dir ''vendor'' [] [\<lparr>name = ''package.json'', path = ''/vendor''\<rparr>]]
                    [\<lparr>name = ''package.json'', path = ''/''\<rparr>])
      else if out = JStr ''/usr:\<newline>bin/\<newline>\<newline>/usr/bin:\<newline>node''
        then Inr (Dir ''/'' [Dir ''bin'' [] [\<lparr>name = ''node'', path = ''/bin''\<rparr>]] [])
      else (case out of
              JStr s \<Rightarrow> Inr (Dir ''/'' [] [])
            | _ \<Rightarrow> Inl \<lparr>stdout = JUndefined, stderr = JUndefined,
                         message = ''output.trim is not a function''\<rparr>))"

definition endsWith :: "string \<Rightarrow> string \<Rightarrow> bool" where
  "endsWith p g = suffix g p"

definition joinSlash :: "string \<Rightarrow> string \<Rightarrow> string" where
  "joinSlash a b = (if a \<noteq> [] \<and> last a = CHR ''/'' then a @ b else a @ ''/'' @ b)"

definition mockGlobs :: Globs where
  "mockGlobs = \<lparr>manifestGlobs = Some [''/package.json''],
                binaryGlobs = Some [''/node'', ''/package.json'']\<rparr>"

text \<open>The tree the scan of the image builds, and the result of the scan.\<close>

definition mockTree :: DiscoveredDirectory where
  "mockTree =
     Dir ''/''
       [Dir ''app'' [Dir ''vendor'' [] [\<lparr>name = ''package.json'', path = ''/app/vendor''\<rparr>]]
          [\<lparr>name = ''package.json'', path = ''/app/''\<rparr>],
        Dir ''proc'' [] [],
        Dir ''usr'' [Dir ''bin'' [] [\<lparr>name = ''node'', path = ''/usr/bin''\<rparr>]] []]
       [\<lparr>name = ''.dockerenv'', path = ''/''\<rparr>]"

definition mockResult :: FindGlobsResult where
  "mockResult = \<lparr>manifestFiles = [''/app/package.json''], binaryFiles = [''/usr/bin/node'']\<rparr>"

text \<open>The same image behind a runner that writes a warning to \<^verbatim>\<open>stderr\<close> on success.\<close>

definition mockListingsNoisy :: executor where
  "mockListingsNoisy command args =
     (case mockListings command args of
        Inl e \<Rightarrow> Inl e
      | Inr out \<Rightarrow> Inr (out\<lparr>stderr := JStr ''WARNING: No swap limit support''\<rparr>))"

text \<open>A runner that rejects every command with the same error, and three errors.\<close>

definition rejecting :: "thrown \<Rightarrow> executor" where
  "rejecting e command args = Inl e"

definition bufferError :: thrown where
  "bufferError = \<lparr>stdout = JStr ''No such file'', stderr = JBuffer ''No such file'',
                   message = ''No such file''\<rparr>"

definition lowerCaseError :: thrown where
  "lowerCaseError = \<lparr>stdout = JStr [], stderr = JStr ''cat: /x: no such file'', message = []\<rparr>"

definition permissionError :: thrown where
  "permissionError = \<lparr>stdout = JStr ''fd/'', stderr = JStr ''ls: /proc/1/fd: Permission denied'',
                       message = []\<rparr>"

text \<open>
  The streams of three files of the image: one read to the end, one that fails, and one
  with a chunk flagged as an error before a clean end; any other file is missing. The digest
  of this example writes the algorithm before the bytes, and the base name and directory
  name of a path are what follows and what precedes its last slash.
\<close>

definition mockStreams :: streamer where
  "mockStreams command args =
     (if args = runArgs alpine ''cat'' [''/usr/bin/node'']
        then [\<lparr>data = Some ''ELF'', err = None, exitCode = None\<rparr>,
              \<lparr>data = Some ''node'', err = None, exitCode = None\<rparr>,
              \<lparr>data = None, err = None, exitCode = Some 0\<rparr>]
      else if args = runArgs alpine ''cat'' [''/usr/bin/npm'']
        then [\<lparr>data = Some ''#!'', err = None, exitCode = None\<rparr>,
              \<lparr>data = None, err = Some ''cat: read error: Input/output error'', exitCode = None\<rparr>,
              \<lparr>data = None, err = None, exitCode = Some 1\<rparr>]
      else if args = runArgs alpine ''cat'' [''/usr/lib/libz.so'']
        then [\<lparr>data = Some ''ab'', err = None, exitCode = None\<rparr>,
              \<lparr>data = Some ''cd'', err = Some ''cat: read error'', exitCode = None\<rparr>,
              \<lparr>data = Some ''ef'', err = None, exitCode = None\<rparr>,
              \<lparr>data = None, err = None, exitCode = Some 0\<rparr>]
      else [\<lparr>data = None, err = Some ''cat: No such file or directory'', exitCode = None\<rparr>,
            \<lparr>data = None, err = None, exitCode = Some 1\<rparr>])"

definition mockDigest :: "string \<Rightarrow> string \<Rightarrow> string" where
  "mockDigest algo bytes = algo @ '':'' @ bytes"

definition lastSegment :: "string \<Rightarrow> string" where
  "lastSegment p = rev (takeWhile (\<lambda>c. c \<noteq> CHR ''/'') (rev p))"

definition parentOf :: "string \<Rightarrow> string" where
  "parentOf p = rev (drop 1 (dropWhile (\<lambda>c. c \<noteq> CHR ''/'') (rev p)))"

section \<open>Facts about the command runner\<close>

lemma indexOf_from_sublist: "0 \<le> indexOf_from s pat k \<longleftrightarrow> sublist pat s"
  by (induction s arbitrary: k) (auto simp: sublist_Cons_right)

lemma indexOf_sublist: "0 \<le> indexOf s pat \<longleftrightarrow> sublist pat s"
  by (simp add: indexOf_def indexOf_from_sublist)

lemma list_ex_indexOf:
  "list_ex (\<lambda>errMsg. indexOf s errMsg \<ge> 0) pats \<longleftrightarrow> (\<exists>m \<in> set pats. sublist m s)"
  by (simp add: list_ex_iff indexOf_sublist)

lemma fst_run: "fst (run d ex cmd args calls) = ex ''docker'' (runArgs d cmd args)"
  by (simp add: run_def execute_def)

lemma snd_run: "snd (run d ex cmd args calls) = calls @ [(''docker'', runArgs d cmd args)]"
  by (simp add: run_def execute_def)

lemma snd_runSafe:
  "snd (runSafe d ex cmd args ign calls) = calls @ [(''docker'', runArgs d cmd args)]"
  by (simp add: runSafe_def run_def execute_def split: sum.splits jsval.splits)

lemma fst_runSafe_calls:
  "fst (runSafe d ex cmd args ign calls) = fst (runSafe d ex cmd args ign [])"
  by (simp add: runSafe_def run_def execute_def split: sum.splits jsval.splits)

section \<open>Facts about the walker and the scan\<close>

lemma forEachFile_keep:
  assumes "\<And>f s. fst (it f s) = f"
  shows "forEachFile it fs s = (fs, fold (\<lambda>f s. snd (it f s)) fs s)"
proof (induction fs arbitrary: s)
  case Nil
  show ?case by simp
next
  case (Cons f fs)
  obtain b where b: "it f s = (f, b)"
    using assms [of f s] by (metis prod.collapse)
  then show ?case
    by (simp add: Cons.IH)
qed

lemma iterate_keep:
  assumes "\<And>f s. fst (it f s) = f"
  shows "iterateFiles d it s = (d, fold (\<lambda>f s. snd (it f s)) (allFiles d) s)"
    and "iterateSubDirs ds it s = (ds, fold (\<lambda>f s. snd (it f s)) (concat (map allFiles ds)) s)"
  using assms
  by (induction d it s and ds it s rule: iterateFiles_iterateSubDirs.induct)
     (simp_all add: forEachFile_keep)

lemma forEachFile_map:
  assumes "\<And>f s. it f s = (g f, s)"
  shows "forEachFile it fs s = (map g fs, s)"
  by (induction fs) (simp_all add: assms)

lemma iterate_map:
  assumes "\<And>f s. it f s = (g f, s)"
  shows "iterateFiles d it s = (mapFiles g d, s)"
    and "iterateSubDirs ds it s = (map (mapFiles g) ds, s)"
  using assms
  by (induction d it s and ds it s rule: iterateFiles_iterateSubDirs.induct)
     (simp_all add: forEachFile_map)

lemma allFiles_mapFiles: "allFiles (mapFiles g d) = map g (allFiles d)"
  by (induction g d rule: mapFiles.induct) (simp add: map_concat cong: map_cong)

lemma exclusion_loop_True: "exclusion_loop mm p gs True = True"
  by (induction gs) simp_all

lemma exclusion_loop_iff: "exclusion_loop mm p gs False \<longleftrightarrow> (\<exists>g \<in> set gs. mm p g)"
  by (induction gs) (simp_all add: exclusion_loop_True)

lemma checkMatch_loop_iff: "checkMatch_loop mm p gs \<longleftrightarrow> (\<exists>g \<in> set gs. mm p g)"
  by (induction gs) simp_all

lemma checkMatch_Some: "checkMatch mm p (Some gs) \<longleftrightarrow> p \<noteq> [] \<and> (\<exists>g \<in> set gs. mm p g)"
  by (simp add: checkMatch_def checkMatch_loop_iff)

lemma fst_visit: "fst (findGlobs_visit mm join globs exg f r) = f"
  by (simp add: findGlobs_visit_def Let_def)

lemma fold_visit_manifest:
  "manifestFiles (fold (\<lambda>f r. snd (findGlobs_visit mm join globs exg f r)) fs r) =
     manifestFiles r @
     filter (\<lambda>p. \<not> (\<exists>g \<in> set exg. mm p g) \<and> checkMatch mm p (manifestGlobs globs))
       (map (fullPath join) fs)"
  by (induction fs arbitrary: r)
     (simp_all add: findGlobs_visit_def Let_def exclusion_loop_iff fullPath_def)

lemma fold_visit_binary:
  "binaryFiles (fold (\<lambda>f r. snd (findGlobs_visit mm join globs exg f r)) fs r) =
     binaryFiles r @
     filter (\<lambda>p. \<not> (\<exists>g \<in> set exg. mm p g) \<and> \<not> checkMatch mm p (manifestGlobs globs)
                  \<and> checkMatch mm p (binaryGlobs globs))
       (map (fullPath join) fs)"
  by (induction fs arbitrary: r)
     (simp_all add: findGlobs_visit_def Let_def exclusion_loop_iff fullPath_def)

lemma findGlobs_Inr:
  "fst (findGlobs d ex parse mm join globs exg sp rec excl calls) = Inr result \<longleftrightarrow>
     (\<exists>root. fst (findGlobs_tree d ex parse sp rec excl calls) = Inr root \<and>
        result = fold (\<lambda>f r. snd (findGlobs_visit mm join globs exg f r)) (allFiles root)
                   \<lparr>manifestFiles = [], binaryFiles = []\<rparr>)"
  by (auto simp: findGlobs_def iterate_keep(1) [OF fst_visit] split: prod.splits sum.splits)

lemma findGlobs_Inr':
  "fst (findGlobs d ex parse mm join globs exg sp rec excl calls) = Inr result \<longleftrightarrow>
     (\<exists>root. fst (findGlobs_tree d ex parse sp rec excl calls) = Inr root \<and>
        result = classified mm join globs exg (allFiles root))"
  by (simp add: findGlobs_Inr classified_def)

lemma classified_manifest:
  "manifestFiles (classified mm join globs exg fs) =
     filter (\<lambda>p. \<not> (\<exists>g \<in> set exg. mm p g) \<and> checkMatch mm p (manifestGlobs globs))
       (map (fullPath join) fs)"
  by (simp add: classified_def fold_visit_manifest)

lemma classified_binary:
  "binaryFiles (classified mm join globs exg fs) =
     filter (\<lambda>p. \<not> (\<exists>g \<in> set exg. mm p g) \<and> \<not> checkMatch mm p (manifestGlobs globs)
                  \<and> checkMatch mm p (binaryGlobs globs))
       (map (fullPath join) fs)"
  by (simp add: classified_def fold_visit_binary)

lemma mock_tree:
  "findGlobs_tree alpine mockListings mockParse ''/'' True SystemDirectories [] =
     (Inr mockTree,
      [lsCall alpine ''/'' False, lsCall alpine ''/app'' True, lsCall alpine ''/usr'' True])"
  by (simp add: findGlobs_tree_def lsSafe_def runSafe_def run_def execute_def lsParams_def
      mockListings_def mockParse_def runArgs_def alpine_def SystemDirectories_def
      findGlobs_reroot_def lsCall_def indexOf_def mockTree_def)

lemma endsWith_simps:
  "endsWith ''/app/vendor/package.json'' ''/vendor/package.json''"
  "endsWith ''/app/vendor/package.json'' ''/package.json''"
  "endsWith ''/app/package.json'' ''/package.json''"
  "\<not> endsWith ''/app/package.json'' ''/vendor/package.json''"
  "\<not> endsWith ''/usr/bin/node'' ''/vendor/package.json''"
  "\<not> endsWith ''/usr/bin/node'' ''/package.json''"
  "endsWith ''/usr/bin/node'' ''/node''"
  "\<not> endsWith ''/.dockerenv'' ''/vendor/package.json''"
  "\<not> endsWith ''/.dockerenv'' ''/package.json''"
  "\<not> endsWith ''/.dockerenv'' ''/node''"
  by (simp_all add: endsWith_def suffix_to_prefix)

lemma mock_scan:
  "findGlobs alpine mockListings mockParse endsWith joinSlash mockGlobs [''/vendor/package.json'']
     ''/'' True SystemDirectories []
   = (Inr mockResult,
      [lsCall alpine ''/'' False, lsCall alpine ''/app'' True, lsCall alpine ''/usr'' True])"
  by (simp add: findGlobs_def mock_tree mockTree_def findGlobs_visit_def checkMatch_def
      joinSlash_def mockGlobs_def mockResult_def endsWith_simps)

lemma noisy_same_listing:
  "listingOutput alpine mockListingsNoisy p r = listingOutput alpine mockListings p r"
  by (simp add: listingOutput_def lsSafe_def runSafe_def run_def execute_def
      mockListingsNoisy_def split: sum.splits jsval.splits)

lemma snd_lsSafe: "snd (lsSafe d ex p r calls) = calls @ [lsCall d p r]"
  by (simp add: lsSafe_def snd_runSafe lsCall_def)

lemma fst_lsSafe_calls: "fst (lsSafe d ex p r calls) = fst (lsSafe d ex p r [])"
  unfolding lsSafe_def by (rule fst_runSafe_calls)

lemma lsSafe_Inl: "fst (lsSafe d ex p r calls) = Inl e \<Longrightarrow> listingOutput d ex p r = None"
  using fst_lsSafe_calls [of d ex p r calls] by (simp add: listingOutput_def)

lemma lsSafe_Inr:
  "fst (lsSafe d ex p r calls) = Inr out \<Longrightarrow> listingOutput d ex p r = Some (stdout out)"
  using fst_lsSafe_calls [of d ex p r calls] by (simp add: listingOutput_def)

lemma lsCall_inj: "lsCall d p r = lsCall d q r' \<longleftrightarrow> p = q \<and> r = r'"
  by (auto simp: lsCall_def runArgs_def lsParams_def)

lemma reroot_map: "findGlobs_reroot n f u = (rerooted n f, u)"
  by (simp add: findGlobs_reroot_def rerooted_def)

lemma iterate_reroot: "fst (iterateFiles t (findGlobs_reroot n) ()) = mapFiles (rerooted n) t"
  by (simp add: iterate_map(1) [OF reroot_map])

lemma allFiles_sel: "allFiles (Dir n (subDirs t) (files t)) = allFiles t"
  by (cases t) simp

lemma subdirs_calls:
  "set (snd (findGlobs_subdirs d ex parse excl sds calls)) \<subseteq>
     set calls \<union> {lsCall d (''/'' @ n) True | n. n \<notin> set excl}"
proof (induction sds arbitrary: calls)
  case Nil
  show ?case by simp
next
  case (Cons sd sds)
  show ?case
  proof (cases "dirName sd \<in> set excl")
    case True
    then show ?thesis
      using Cons.IH [of calls] by (auto split: prod.splits sum.splits)
  next
    case False
    have step: "set (calls @ [lsCall d (''/'' @ dirName sd) True])
                  \<subseteq> set calls \<union> {lsCall d (''/'' @ n) True | n. n \<notin> set excl}"
      using False by auto
    have c1: "snd (lsSafe d ex (''/'' @ dirName sd) True calls) = calls @ [lsCall d (''/'' @ dirName sd) True]"
      by (rule snd_lsSafe)
    show ?thesis
      using False step c1 Cons.IH [of "calls @ [lsCall d (''/'' @ dirName sd) True]"]
      by (auto simp: Let_def split: prod.splits sum.splits)
  qed
qed

lemma tree_calls:
  "set (snd (findGlobs_tree d ex parse ''/'' True excl calls)) \<subseteq>
     set calls \<union> {lsCall d ''/'' False} \<union> {lsCall d (''/'' @ n) True | n. n \<notin> set excl}"
proof -
  have c1: "snd (lsSafe d ex ''/'' False calls) = calls @ [lsCall d ''/'' False]"
    by (rule snd_lsSafe)
  have alt: "snd (findGlobs_tree d ex parse ''/'' True excl calls) = calls @ [lsCall d ''/'' False]
             \<or> (\<exists>sds. snd (findGlobs_tree d ex parse ''/'' True excl calls)
                         = snd (findGlobs_subdirs d ex parse excl sds (calls @ [lsCall d ''/'' False])))"
  proof (cases "fst (lsSafe d ex ''/'' False calls)")
    case (Inl e)
    then have "lsSafe d ex ''/'' False calls = (Inl e, calls @ [lsCall d ''/'' False])"
      using c1 by (metis prod.collapse)
    then show ?thesis by (simp add: findGlobs_tree_def)
  next
    case (Inr out)
    then have ls: "lsSafe d ex ''/'' False calls = (Inr out, calls @ [lsCall d ''/'' False])"
      using c1 by (metis prod.collapse)
    show ?thesis
    proof (cases "parse (stdout out)")
      case (Inl e)
      then show ?thesis using ls by (simp add: findGlobs_tree_def)
    next
      case (Inr root)
      have "snd (findGlobs_tree d ex parse ''/'' True excl calls)
              = snd (findGlobs_subdirs d ex parse excl (subDirs root) (calls @ [lsCall d ''/'' False]))"
        using ls Inr by (simp add: findGlobs_tree_def split: prod.splits sum.splits)
      then show ?thesis by blast
    qed
  qed
  define S where "S = {lsCall d (''/'' @ n) True | n. n \<notin> set excl}"
  have sub: "set (snd (findGlobs_subdirs d ex parse excl sds (calls @ [lsCall d ''/'' False])))
               \<subseteq> set (calls @ [lsCall d ''/'' False]) \<union> S" for sds
    unfolding S_def by (rule subdirs_calls)
  have "set (snd (findGlobs_tree d ex parse ''/'' True excl calls))
          \<subseteq> set calls \<union> {lsCall d ''/'' False} \<union> S"
  proof -
    consider (stop) "snd (findGlobs_tree d ex parse ''/'' True excl calls)
                       = calls @ [lsCall d ''/'' False]"
      | (loop) sds where "snd (findGlobs_tree d ex parse ''/'' True excl calls)
                       = snd (findGlobs_subdirs d ex parse excl sds (calls @ [lsCall d ''/'' False]))"
      using alt by blast
    then show ?thesis
    proof cases
      case stop
      then show ?thesis by auto
    next
      case loop
      then show ?thesis using sub [of sds] by auto
    qed
  qed
  then show ?thesis
    unfolding S_def .
qed

lemma snd_findGlobs:
  "snd (findGlobs d ex parse mm join globs exg sp rec excl calls) =
     snd (findGlobs_tree d ex parse sp rec excl calls)"
  by (simp add: findGlobs_def split: prod.splits sum.splits)

lemma lsSafe_None:
  "listingOutput d ex p r = None \<Longrightarrow> \<exists>e c. lsSafe d ex p r calls = (Inl e, c)"
  using fst_lsSafe_calls [of d ex p r calls]
  by (cases "lsSafe d ex p r calls") (auto simp: listingOutput_def split: sum.splits)

lemma lsSafe_Some:
  "listingOutput d ex p r = Some v \<Longrightarrow>
     \<exists>out. lsSafe d ex p r calls = (Inr out, calls @ [lsCall d p r]) \<and> stdout out = v"
  using fst_lsSafe_calls [of d ex p r calls] snd_lsSafe [of d ex p r calls]
  by (cases "lsSafe d ex p r calls") (auto simp: listingOutput_def split: sum.splits)

lemma subdirs_Inr:
  "fst (findGlobs_subdirs d ex parse excl sds calls) = Inr sds' \<Longrightarrow>
     list_all2
       (\<lambda>sd sd'. if dirName sd \<in> set excl then sd' = sd
                  else \<exists>v t. listingOutput d ex (''/'' @ dirName sd) True = Some v
                         \<and> parse v = Inr t
                         \<and> dirName sd' = dirName sd
                         \<and> allFiles sd' = map (rerooted (dirName sd)) (allFiles t))
       sds sds'"
proof (induction sds arbitrary: sds' calls)
  case Nil
  then show ?case by simp
next
  case (Cons sd rest)
  show ?case
  proof (cases "dirName sd \<in> set excl")
    case True
    then obtain rest' where r: "fst (findGlobs_subdirs d ex parse excl rest calls) = Inr rest'"
        and s: "sds' = sd # rest'"
      using Cons.prems by (auto split: prod.splits sum.splits)
    show ?thesis
      using True s Cons.IH [OF r] by simp
  next
    case False
    let ?p = "''/'' @ dirName sd"
    obtain out calls1 where ls: "lsSafe d ex ?p True calls = (Inr out, calls1)"
      using Cons.prems False by (auto split: prod.splits sum.splits)
    obtain t where t: "parse (stdout out) = Inr t"
      using Cons.prems False ls by (auto split: prod.splits sum.splits)
    let ?sd' = "Dir (dirName sd) (subDirs (mapFiles (rerooted (dirName sd)) t))
                  (files (mapFiles (rerooted (dirName sd)) t))"
    obtain rest' where r: "fst (findGlobs_subdirs d ex parse excl rest calls1) = Inr rest'"
        and s: "sds' = ?sd' # rest'"
      using Cons.prems False ls t
      by (auto simp: iterate_reroot Let_def split: prod.splits sum.splits)
    have lo: "listingOutput d ex ?p True = Some (stdout out)"
      using ls lsSafe_Inr [of d ex ?p True calls out] by simp
    have af: "allFiles ?sd' = map (rerooted (dirName sd)) (allFiles t)"
      by (simp only: allFiles_sel allFiles_mapFiles)
    have "\<exists>v t. listingOutput d ex ?p True = Some v \<and> parse v = Inr t
            \<and> dirName ?sd' = dirName sd
            \<and> allFiles ?sd' = map (rerooted (dirName sd)) (allFiles t)"
      using lo t af by auto
    then show ?thesis
      using False s Cons.IH [OF r] by simp
  qed
qed

lemma subdirs_det:
  assumes L: "\<And>p r. listingOutput d ex1 p r = listingOutput d ex2 p r"
  shows "returned (fst (findGlobs_subdirs d ex1 parse excl sds c1))
           = returned (fst (findGlobs_subdirs d ex2 parse excl sds c2))"
proof (induction sds arbitrary: c1 c2)
  case Nil
  show ?case by simp
next
  case (Cons sd rest)
  show ?case
  proof (cases "dirName sd \<in> set excl")
    case True
    then show ?thesis
      using Cons.IH [of c1 c2] by (auto simp: returned_def split: prod.splits sum.splits)
  next
    case False
    let ?p = "''/'' @ dirName sd"
    show ?thesis
    proof (cases "listingOutput d ex1 ?p True")
      case None
      then have n2: "listingOutput d ex2 ?p True = None" using L by simp
      obtain e1 k1 where a: "lsSafe d ex1 ?p True c1 = (Inl e1, k1)"
        using lsSafe_None [OF None] by blast
      obtain e2 k2 where b: "lsSafe d ex2 ?p True c2 = (Inl e2, k2)"
        using lsSafe_None [OF n2] by blast
      show ?thesis using False a b by (simp add: returned_def)
    next
      case (Some v)
      then have s2: "listingOutput d ex2 ?p True = Some v" using L by simp
      obtain o1 where a: "lsSafe d ex1 ?p True c1 = (Inr o1, c1 @ [lsCall d ?p True])"
          and a': "stdout o1 = v"
        using lsSafe_Some [OF Some] by blast
      obtain o2 where b: "lsSafe d ex2 ?p True c2 = (Inr o2, c2 @ [lsCall d ?p True])"
          and b': "stdout o2 = v"
        using lsSafe_Some [OF s2] by blast
      show ?thesis
        using False a a' b b' Cons.IH [of "c1 @ [lsCall d ?p True]" "c2 @ [lsCall d ?p True]"]
        by (auto simp: returned_def Let_def split: prod.splits sum.splits)
    qed
  qed
qed

lemma tree_root_Inr:
  assumes "fst (findGlobs_tree d ex parse ''/'' True excl calls) = Inr root'"
  obtains v root sds c1 where
    "listingOutput d ex ''/'' False = Some v"
    "parse v = Inr root"
    "fst (findGlobs_subdirs d ex parse excl (subDirs root) c1) = Inr sds"
    "root' = Dir (dirName root) sds (files root)"
proof -
  obtain out c1 where ls: "lsSafe d ex ''/'' False calls = (Inr out, c1)"
    using assms by (auto simp: findGlobs_tree_def split: prod.splits sum.splits)
  obtain root where p: "parse (stdout out) = Inr root"
    using assms ls by (auto simp: findGlobs_tree_def split: prod.splits sum.splits)
  obtain sds where s: "fst (findGlobs_subdirs d ex parse excl (subDirs root) c1) = Inr sds"
      and r: "root' = Dir (dirName root) sds (files root)"
    using assms ls p by (auto simp: findGlobs_tree_def split: prod.splits sum.splits)
  have lo: "listingOutput d ex ''/'' False = Some (stdout out)"
    using ls lsSafe_Inr [of d ex "''/''" False calls out] by simp
  show ?thesis
    by (rule that [OF lo p s r])
qed

lemma tree_path_unfold:
  assumes "\<not> (rec \<and> sp = ''/'')"
  shows "findGlobs_tree d ex parse sp rec excl calls =
           (case lsSafe d ex sp rec calls of
              (Inl e, calls1) \<Rightarrow> (Inl e, calls1)
            | (Inr output, calls1) \<Rightarrow>
                (case parse (stdout output) of
                   Inl e \<Rightarrow> (Inl e, calls1)
                 | Inr root \<Rightarrow> (Inr root, calls1)))"
  unfolding findGlobs_tree_def using assms by (rule if_not_P)

lemma tree_returned_root:
  "returned (fst (findGlobs_tree d ex parse ''/'' True excl calls)) =
     (case listingOutput d ex ''/'' False of
        None \<Rightarrow> None
      | Some v \<Rightarrow>
          (case parse v of
             Inl e \<Rightarrow> None
           | Inr root \<Rightarrow>
               map_option (\<lambda>sds. Dir (dirName root) sds (files root))
                 (returned (fst (findGlobs_subdirs d ex parse excl (subDirs root)
                                   (calls @ [lsCall d ''/'' False]))))))"
proof (cases "listingOutput d ex ''/'' False")
  case None
  obtain e k where a: "lsSafe d ex ''/'' False calls = (Inl e, k)"
    using lsSafe_None [OF None] by blast
  show ?thesis using None a by (simp add: findGlobs_tree_def returned_def)
next
  case (Some v)
  obtain out where a: "lsSafe d ex ''/'' False calls = (Inr out, calls @ [lsCall d ''/'' False])"
      and a': "stdout out = v"
    using lsSafe_Some [OF Some] by blast
  show ?thesis
    using Some a a'
    by (simp add: findGlobs_tree_def returned_def split: prod.splits sum.splits)
qed

lemma tree_returned_path:
  assumes "\<not> (rec \<and> sp = ''/'')"
  shows "returned (fst (findGlobs_tree d ex parse sp rec excl calls)) =
     (case listingOutput d ex sp rec of
        None \<Rightarrow> None
      | Some v \<Rightarrow> (case parse v of Inl e \<Rightarrow> None | Inr root \<Rightarrow> Some root))"
proof (cases "listingOutput d ex sp rec")
  case None
  obtain e k where a: "lsSafe d ex sp rec calls = (Inl e, k)"
    using lsSafe_None [OF None] by blast
  show ?thesis using None a by (simp add: tree_path_unfold [OF assms] returned_def)
next
  case (Some v)
  obtain out where a: "lsSafe d ex sp rec calls = (Inr out, calls @ [lsCall d sp rec])"
      and a': "stdout out = v"
    using lsSafe_Some [OF Some] by blast
  show ?thesis
    using Some a a'
    by (simp add: tree_path_unfold [OF assms] returned_def split: sum.splits)
qed

lemma tree_det:
  assumes L: "\<And>p r. listingOutput d ex1 p r = listingOutput d ex2 p r"
  shows "returned (fst (findGlobs_tree d ex1 parse sp rec excl c1))
           = returned (fst (findGlobs_tree d ex2 parse sp rec excl c2))"
proof (cases "rec \<and> sp = ''/''")
  case True
  have sub: "returned (fst (findGlobs_subdirs d ex1 parse excl sds (c1 @ [lsCall d ''/'' False])))
               = returned (fst (findGlobs_subdirs d ex2 parse excl sds (c2 @ [lsCall d ''/'' False])))"
    for sds
    by (rule subdirs_det [OF L])
  have "returned (fst (findGlobs_tree d ex1 parse ''/'' True excl c1))
           = returned (fst (findGlobs_tree d ex2 parse ''/'' True excl c2))"
    by (simp only: tree_returned_root L sub)
  then show ?thesis using True by simp
next
  case False
  show ?thesis
    by (simp only: tree_returned_path [OF False] L)
qed

lemma findGlobs_returned:
  "returned (fst (findGlobs d ex parse mm join globs exg sp rec excl calls)) =
     map_option (\<lambda>root. classified mm join globs exg (allFiles root))
       (returned (fst (findGlobs_tree d ex parse sp rec excl calls)))"
  by (simp add: findGlobs_def returned_def classified_def iterate_keep(1) [OF fst_visit]
      split: prod.splits sum.splits)

section \<open>Facts about the streaming hasher\<close>

lemma hashedBytes_Nil: "hashedBytes [] = []"
  by (simp add: hashedBytes_def)

lemma hashedBytes_append: "hashedBytes (xs @ ys) = hashedBytes xs @ hashedBytes ys"
  by (simp add: hashedBytes_def)

lemma hashedBytes_Cons: "hashedBytes (sd # xs) = hashedBytes [sd] @ hashedBytes xs"
  by (simp add: hashedBytes_def)

lemma hashedBytes_err: "isTruthy (err sd) \<Longrightarrow> hashedBytes [sd] = []"
  by (simp add: hashedBytes_def split: option.splits)

lemma callback_hash:
  "fst (calcHash_callback hx bn dn fl ht sd (h, acc)) = h\<lparr>updated := updated h @ hashedBytes [sd]\<rparr>"
  by (simp add: calcHash_callback_def hash_update_def hashedBytes_def Let_def split: option.splits)

lemma callback_records:
  "snd (calcHash_callback hx bn dn fl ht sd (h, acc)) =
     acc @ (if exitCode sd = Some 0
            then [\<lparr>name = bn fl, path = dn fl, hashType = ht,
                   hash = hx (algorithm h) (updated h @ hashedBytes [sd])\<rparr>]
            else [])"
  by (simp add: calcHash_callback_def hash_update_def hash_digest_def hashedBytes_def Let_def
      split: option.splits)

lemma fold_callback_hash:
  "fst (fold (calcHash_callback hx bn dn fl ht) chunks (h, acc))
     = h\<lparr>updated := updated h @ hashedBytes chunks\<rparr>"
proof (induction chunks arbitrary: h acc)
  case Nil
  show ?case by (simp add: hashedBytes_Nil)
next
  case (Cons sd chunks)
  obtain h' acc' where st: "calcHash_callback hx bn dn fl ht sd (h, acc) = (h', acc')"
    by (cases "calcHash_callback hx bn dn fl ht sd (h, acc)") simp
  have h': "h' = h\<lparr>updated := updated h @ hashedBytes [sd]\<rparr>"
    using callback_hash [of hx bn dn fl ht sd h acc] st by simp
  show ?case
    by (simp add: st Cons.IH h' hashedBytes_Cons [of sd chunks])
qed

lemma fold_callback_silent:
  assumes "list_all (\<lambda>sd. exitCode sd = None) chunks"
  shows "snd (fold (calcHash_callback hx bn dn fl ht) chunks (h, acc)) = acc"
  using assms
proof (induction chunks arbitrary: h acc)
  case Nil
  show ?case by simp
next
  case (Cons sd chunks)
  have step: "calcHash_callback hx bn dn fl ht sd (h, acc)
                = (h\<lparr>updated := updated h @ hashedBytes [sd]\<rparr>, acc)"
    using callback_hash [of hx bn dn fl ht sd h acc]
      callback_records [of hx bn dn fl ht sd h acc] Cons.prems
    by (simp add: prod_eq_iff)
  show ?case
    using Cons.prems by (simp add: step Cons.IH)
qed

lemma fold_callback_complete:
  assumes "exitCodeLast chunks"
  shows "snd (fold (calcHash_callback hx bn dn fl ht) chunks (h, acc)) =
           acc @ (if completedCleanly chunks
                  then [\<lparr>name = bn fl, path = dn fl, hashType = ht,
                         hash = hx (algorithm h) (updated h @ hashedBytes chunks)\<rparr>]
                  else [])"
proof (cases "chunks = []")
  case True
  then show ?thesis by (simp add: completedCleanly_def)
next
  case False
  then have split: "chunks = butlast chunks @ [last chunks]"
    by simp
  have quiet: "list_all (\<lambda>sd. exitCode sd = None) (butlast chunks)"
    using assms by (simp add: exitCodeLast_def)
  obtain h1 where mid: "fold (calcHash_callback hx bn dn fl ht) (butlast chunks) (h, acc) = (h1, acc)"
      and h1: "h1 = h\<lparr>updated := updated h @ hashedBytes (butlast chunks)\<rparr>"
    using fold_callback_hash [of hx bn dn fl ht "butlast chunks" h acc]
      fold_callback_silent [OF quiet, of hx bn dn fl ht h acc]
    by (simp add: prod_eq_iff)
  have "fold (calcHash_callback hx bn dn fl ht) chunks (h, acc)
          = calcHash_callback hx bn dn fl ht (last chunks) (h1, acc)"
    by (subst split) (simp add: mid)
  then have "snd (fold (calcHash_callback hx bn dn fl ht) chunks (h, acc)) =
               acc @ (if exitCode (last chunks) = Some 0
                      then [\<lparr>name = bn fl, path = dn fl, hashType = ht,
                             hash = hx (algorithm h1) (updated h1 @ hashedBytes [last chunks])\<rparr>]
                      else [])"
    by (simp add: callback_records)
  moreover have "updated h1 @ hashedBytes [last chunks] = updated h @ hashedBytes chunks"
    using hashedBytes_append [of "butlast chunks" "[last chunks]"] False by (simp add: h1)
  moreover have "algorithm h1 = algorithm h"
    by (simp add: h1)
  ultimately show ?thesis
    using False by (simp add: completedCleanly_def)
qed

lemma catBinarySafe_fold:
  "catBinarySafe d sx fl cb s = fold cb (fileStream d sx fl) s"
  by (simp add: catBinarySafe_def runAsStream_def executeAsStream_def fileStream_def)

lemma loop_complete:
  assumes "\<forall>fl \<in> set fs. exitCodeLast (fileStream d sx fl)"
  shows "calcHash_loop d sx hx bn dn ht fs acc =
           acc @ map (\<lambda>fl. recordOf hx bn dn ht fl (fileStream d sx fl))
                   (filter (\<lambda>fl. completedCleanly (fileStream d sx fl)) fs)"
  using assms
proof (induction fs arbitrary: acc)
  case Nil
  show ?case by simp
next
  case (Cons fl fs)
  have wf: "exitCodeLast (fileStream d sx fl)"
    using Cons.prems by simp
  have rest: "\<forall>f \<in> set fs. exitCodeLast (fileStream d sx f)"
    using Cons.prems by simp
  have one: "snd (catBinarySafe d sx fl (calcHash_callback hx bn dn fl ht) (createHash ht, acc))
               = acc @ (if completedCleanly (fileStream d sx fl)
                        then [recordOf hx bn dn ht fl (fileStream d sx fl)] else [])"
    by (simp add: catBinarySafe_fold fold_callback_complete [OF wf] createHash_def recordOf_def)
  show ?case
    by (simp add: one Cons.IH [OF rest])
qed

lemma calc_complete:
  assumes "\<forall>fl \<in> set fs. exitCodeLast (fileStream d sx fl)"
  shows "calcHashOfBinaryFiles d sx hx bn dn sha1 fs options =
           map (\<lambda>fl. recordOf hx bn dn (calcHash_hashType sha1 options) fl (fileStream d sx fl))
             (filter (\<lambda>fl. completedCleanly (fileStream d sx fl)) fs)"
  by (simp add: calcHashOfBinaryFiles_def loop_complete [OF assms])

lemma mock_streams:
  "fileStream alpine mockStreams ''/usr/bin/node'' =
     [\<lparr>data = Some ''ELF'', err = None, exitCode = None\<rparr>,
      \<lparr>data = Some ''node'', err = None, exitCode = None\<rparr>,
      \<lparr>data = None, err = None, exitCode = Some 0\<rparr>]"
  "fileStream alpine mockStreams ''/usr/bin/npm'' =
     [\<lparr>data = Some ''#!'', err = None, exitCode = None\<rparr>,
      \<lparr>data = None, err = Some ''cat: read error: Input/output error'', exitCode = None\<rparr>,
      \<lparr>data = None, err = None, exitCode = Some 1\<rparr>]"
  "fileStream alpine mockStreams ''/usr/lib/libz.so'' =
     [\<lparr>data = Some ''ab'', err = None, exitCode = None\<rparr>,
      \<lparr>data = Some ''cd'', err = Some ''cat: read error'', exitCode = None\<rparr>,
      \<lparr>data = Some ''ef'', err = None, exitCode = None\<rparr>,
      \<lparr>data = None, err = None, exitCode = Some 0\<rparr>]"
  by (simp_all add: fileStream_def mockStreams_def runArgs_def)

section \<open>The command runner: tolerated and propagated failures\<close>

text \<open>
  Claim C4, as the code has it. When the command fails, \<^verbatim>\<open>runSafe\<close> returns
  \<^verbatim>\<open>{stdout, stderr}\<close> of the error if one of the given patterns occurs in its \<^verbatim>\<open>stderr\<close> (a
  case-sensitive substring of a string), and rethrows the error otherwise. The default
  patterns are \<^verbatim>\<open>"No such file"\<close> and \<^verbatim>\<open>"file not found"\<close>. A listing through \<^verbatim>\<open>lsSafe\<close>
  that fails with \<^verbatim>\<open>"Permission denied"\<close> in its \<^verbatim>\<open>stderr\<close> returns as well.
\<close>

theorem runSafe_tolerates_listed_errors:
  assumes "ex ''docker'' (runArgs d cmd args) = Inl error"
  shows "fst (runSafe d ex cmd args ignoreErrors calls) =
           (if \<exists>errMsg \<in> set ignoreErrors. stderrContains error errMsg
            then Inr \<lparr>stdout = stdout error, stderr = stderr error\<rparr>
            else Inl error)
         \<and> runSafe_ignoreErrors_default = [''No such file'', ''file not found'']
         \<and> (cmd = ''ls'' \<and> args = [lsParams recursive, p]
              \<and> stderrContains error ''Permission denied''
              \<longrightarrow> fst (lsSafe d ex p recursive calls)
                    = Inr \<lparr>stdout = stdout error, stderr = stderr error\<rparr>)"
proof (cases "stderr error")
  case (JStr s)
  then show ?thesis
    using assms
    by (auto simp: runSafe_def run_def execute_def list_ex_indexOf lsSafe_def
        runSafe_ignoreErrors_default_def stderrContains_def)
qed (use assms in \<open>simp_all add: runSafe_def run_def execute_def lsSafe_def
      runSafe_ignoreErrors_default_def stderrContains_def\<close>)

text \<open>
  The scenario of the spec: a listing of \<^verbatim>\<open>/proc\<close> fails with
  \<^verbatim>\<open>ls: /proc/1/fd: Permission denied\<close>. With the default patterns \<^verbatim>\<open>runSafe\<close> rethrows it;
  \<^verbatim>\<open>lsSafe\<close> returns the partial output.
\<close>

theorem runSafe_tolerates_listed_errors_witness:
  "rejecting permissionError ''docker'' (runArgs alpine ''ls'' [lsParams True, ''/proc''])
     = Inl permissionError
   \<and> stderr permissionError = JStr ''ls: /proc/1/fd: Permission denied''
   \<and> stderrContains permissionError ''Permission denied''
   \<and> fst (runSafe alpine (rejecting permissionError) ''ls'' [lsParams True, ''/proc'']
            runSafe_ignoreErrors_default []) = Inl permissionError
   \<and> fst (lsSafe alpine (rejecting permissionError) ''/proc'' True [])
       = Inr \<lparr>stdout = JStr ''fd/'', stderr = JStr ''ls: /proc/1/fd: Permission denied''\<rparr>"
proof -
  have h1: "rejecting permissionError ''docker'' (runArgs alpine ''ls'' [lsParams True, ''/proc''])
              = Inl permissionError"
    by (simp add: rejecting_def)
  have h2: "stderr permissionError = JStr ''ls: /proc/1/fd: Permission denied''"
    by (simp add: permissionError_def)
  have s1: "stderrContains permissionError ''Permission denied''"
    by (simp add: stderrContains_def permissionError_def sublist_Cons_right)
  have s2: "\<not> stderrContains permissionError ''No such file''"
    by (simp add: stderrContains_def permissionError_def sublist_Cons_right)
  have s3: "\<not> stderrContains permissionError ''file not found''"
    by (simp add: stderrContains_def permissionError_def sublist_Cons_right)
  note t = runSafe_tolerates_listed_errors
        [where ex = "rejecting permissionError" and d = alpine and cmd = "''ls''"
           and args = "[lsParams True, ''/proc'']" and error = permissionError
           and ignoreErrors = runSafe_ignoreErrors_default and calls = "[]"
           and recursive = True and p = "''/proc''", OF h1]
  have none: "\<not> (\<exists>errMsg \<in> set runSafe_ignoreErrors_default.
                   stderrContains permissionError errMsg)"
    using s2 s3 by (simp add: runSafe_ignoreErrors_default_def)
  have c1: "fst (runSafe alpine (rejecting permissionError) ''ls'' [lsParams True, ''/proc'']
                   runSafe_ignoreErrors_default []) = Inl permissionError"
    using t none by presburger
  have c2: "fst (lsSafe alpine (rejecting permissionError) ''/proc'' True [])
              = Inr \<lparr>stdout = stdout permissionError, stderr = stderr permissionError\<rparr>"
    using t s1 by blast
  have c3: "stdout permissionError = JStr ''fd/''"
    by (simp add: permissionError_def)
  show ?thesis
    using h1 h2 s1 c1 c2 c3 by presburger
qed

text \<open>
  Claim C4 as stated names \<^verbatim>\<open>"no such file"\<close> as a default pattern. A \<^verbatim>\<open>cat\<close> that fails
  with a \<^verbatim>\<open>stderr\<close> containing exactly that text is rethrown by \<^verbatim>\<open>catSafe\<close>, which runs
  \<^verbatim>\<open>runSafe\<close> with the default patterns: the code's pattern has a capital N.
\<close>

theorem runSafe_default_patterns_counterexample:
  "stderrContains lowerCaseError ''no such file''
   \<and> fst (catSafe alpine (rejecting lowerCaseError) ''/x'' []) = Inl lowerCaseError"
proof -
  have c: "stderrContains lowerCaseError ''no such file''"
    by (simp add: stderrContains_def lowerCaseError_def sublist_Cons_right)
  have r: "fst (catSafe alpine (rejecting lowerCaseError) ''/x'' []) = Inl lowerCaseError"
    by (simp add: catSafe_def runSafe_def run_def execute_def rejecting_def lowerCaseError_def
        runSafe_ignoreErrors_default_def indexOf_def)
  show ?thesis
    using c r by simp
qed

text \<open>
  Claim C10. When the command fails with an error whose \<^verbatim>\<open>stderr\<close> is not a string (absent
  or of another type), \<^verbatim>\<open>runSafe\<close> rethrows that same error whatever the patterns are and
  whatever the other fields of the error contain.
\<close>

theorem runSafe_rethrows_without_string_stderr:
  assumes "ex ''docker'' (runArgs d cmd args) = Inl error"
    and "\<forall>s. stderr error \<noteq> JStr s"
  shows "fst (runSafe d ex cmd args ignoreErrors calls) = Inl error"
  using assms by (cases "stderr error") (simp_all add: runSafe_def run_def execute_def)

text \<open>
  An error whose \<^verbatim>\<open>stderr\<close> is a buffer holding \<^verbatim>\<open>No such file\<close>, with the same text in
  its \<^verbatim>\<open>stdout\<close> and its message, is rethrown.
\<close>

theorem runSafe_rethrows_without_string_stderr_witness:
  "rejecting bufferError ''docker'' (runArgs alpine ''cat'' [''/etc/os-release'']) = Inl bufferError
   \<and> (\<forall>s. stderr bufferError \<noteq> JStr s)
   \<and> fst (runSafe alpine (rejecting bufferError) ''cat'' [''/etc/os-release'']
             [''No such file'', ''file not found''] []) = Inl bufferError"
proof -
  have h1: "rejecting bufferError ''docker'' (runArgs alpine ''cat'' [''/etc/os-release''])
              = Inl bufferError"
    by (simp add: rejecting_def)
  have h2: "\<forall>s. stderr bufferError \<noteq> JStr s"
    by (simp add: bufferError_def)
  show ?thesis
    using h1 h2 runSafe_rethrows_without_string_stderr
        [where ex = "rejecting bufferError" and d = alpine and cmd = "''cat''"
           and args = "[''/etc/os-release'']" and error = bufferError
           and ignoreErrors = "[''No such file'', ''file not found'']" and calls = "[]"]
    by simp
qed

section \<open>findGlobs: classification\<close>

text \<open>
  Claim C1. Whenever \<^verbatim>\<open>findGlobs\<close> returns, a path that matches one of the exclusion globs
  is in neither \<^verbatim>\<open>manifestFiles\<close> nor \<^verbatim>\<open>binaryFiles\<close> of the result, whatever the manifest
  and binary globs are: the visitor returns on an excluded path before it classifies.
\<close>

theorem findGlobs_exclusion_dominates:
  assumes "fst (findGlobs d ex parseLsOutput minimatch join globs exclusionGlobs scanPath
                  recursive excludeRootDirectories calls) = Inr result"
    and "g \<in> set exclusionGlobs"
    and "minimatch p g"
  shows "p \<notin> set (manifestFiles result) \<and> p \<notin> set (binaryFiles result)"
proof -
  obtain root where r: "result = classified minimatch join globs exclusionGlobs (allFiles root)"
    using assms(1) by (auto simp: findGlobs_Inr')
  have ex: "\<exists>g \<in> set exclusionGlobs. minimatch p g"
    using assms(2,3) by blast
  show ?thesis
    using ex by (simp add: r classified_manifest classified_binary)
qed

text \<open>
  In the small image \<^verbatim>\<open>/app/vendor/package.json\<close> matches the exclusion glob, the manifest
  glob and a binary glob, and is in neither list.
\<close>

theorem findGlobs_exclusion_dominates_witness:
  "fst (findGlobs alpine mockListings mockParse endsWith joinSlash mockGlobs
          [''/vendor/package.json''] ''/'' True SystemDirectories []) = Inr mockResult
   \<and> ''/vendor/package.json'' \<in> set [''/vendor/package.json'']
   \<and> endsWith ''/app/vendor/package.json'' ''/vendor/package.json''
   \<and> endsWith ''/app/vendor/package.json'' ''/package.json''
   \<and> ''/app/vendor/package.json'' \<notin> set (manifestFiles mockResult)
   \<and> ''/app/vendor/package.json'' \<notin> set (binaryFiles mockResult)"
proof -
  have h1: "fst (findGlobs alpine mockListings mockParse endsWith joinSlash mockGlobs
                   [''/vendor/package.json''] ''/'' True SystemDirectories []) = Inr mockResult"
    by (simp add: mock_scan)
  have h2: "''/vendor/package.json'' \<in> set [''/vendor/package.json'']"
    by simp
  have h3: "endsWith ''/app/vendor/package.json'' ''/vendor/package.json''"
    by (rule endsWith_simps)
  have h4: "endsWith ''/app/vendor/package.json'' ''/package.json''"
    by (rule endsWith_simps)
  show ?thesis
    using h1 h2 h3 h4 findGlobs_exclusion_dominates [OF h1 h2 h3] by blast
qed

text \<open>
  Claim C2. Whenever \<^verbatim>\<open>findGlobs\<close> returns, no path is in both lists of the result; and
  the full path of a walked entry that matches a manifest glob and a binary glob is not in
  \<^verbatim>\<open>binaryFiles\<close>, and is in \<^verbatim>\<open>manifestFiles\<close> when it is not empty and not excluded.
\<close>

theorem findGlobs_lists_disjoint:
  assumes "fst (findGlobs_tree d ex parseLsOutput scanPath recursive excludeRootDirectories calls)
             = Inr root"
  shows "\<exists>result.
           fst (findGlobs d ex parseLsOutput minimatch join globs exclusionGlobs scanPath
                  recursive excludeRootDirectories calls) = Inr result
         \<and> set (manifestFiles result) \<inter> set (binaryFiles result) = {}
         \<and> (\<forall>mg bg f.
              manifestGlobs globs = Some mg \<and> binaryGlobs globs = Some bg
              \<and> f \<in> set (allFiles root)
              \<and> (\<exists>g \<in> set mg. minimatch (fullPath join f) g)
              \<and> (\<exists>g \<in> set bg. minimatch (fullPath join f) g)
              \<longrightarrow> fullPath join f \<notin> set (binaryFiles result)
                  \<and> (fullPath join f \<noteq> []
                       \<and> \<not> (\<exists>g \<in> set exclusionGlobs. minimatch (fullPath join f) g)
                     \<longrightarrow> fullPath join f \<in> set (manifestFiles result)))"
proof -
  let ?result = "classified minimatch join globs exclusionGlobs (allFiles root)"
  have r: "fst (findGlobs d ex parseLsOutput minimatch join globs exclusionGlobs scanPath
                  recursive excludeRootDirectories calls) = Inr ?result"
    using assms(1) by (simp add: findGlobs_Inr')
  have disj: "set (manifestFiles ?result) \<inter> set (binaryFiles ?result) = {}"
    by (auto simp: classified_manifest classified_binary)
  have both: "\<forall>mg bg f.
              manifestGlobs globs = Some mg \<and> binaryGlobs globs = Some bg
              \<and> f \<in> set (allFiles root)
              \<and> (\<exists>g \<in> set mg. minimatch (fullPath join f) g)
              \<and> (\<exists>g \<in> set bg. minimatch (fullPath join f) g)
              \<longrightarrow> fullPath join f \<notin> set (binaryFiles ?result)
                  \<and> (fullPath join f \<noteq> []
                       \<and> \<not> (\<exists>g \<in> set exclusionGlobs. minimatch (fullPath join f) g)
                     \<longrightarrow> fullPath join f \<in> set (manifestFiles ?result))"
    by (auto simp: classified_manifest classified_binary checkMatch_Some)
  show ?thesis
    using r disj both by blast
qed

text \<open>
  In the small image \<^verbatim>\<open>/app/package.json\<close> matches the manifest glob and the second binary
  glob, and is a manifest file only.
\<close>

theorem findGlobs_lists_disjoint_witness:
  "fst (findGlobs_tree alpine mockListings mockParse ''/'' True SystemDirectories []) = Inr mockTree
   \<and> fst (findGlobs alpine mockListings mockParse endsWith joinSlash mockGlobs
            [''/vendor/package.json''] ''/'' True SystemDirectories []) = Inr mockResult
   \<and> set (manifestFiles mockResult) \<inter> set (binaryFiles mockResult) = {}
   \<and> \<lparr>name = ''package.json'', path = ''/app/''\<rparr> \<in> set (allFiles mockTree)
   \<and> fullPath joinSlash \<lparr>name = ''package.json'', path = ''/app/''\<rparr> = ''/app/package.json''
   \<and> ''/app/package.json'' \<notin> set (binaryFiles mockResult)
   \<and> ''/app/package.json'' \<in> set (manifestFiles mockResult)"
proof -
  have h1: "fst (findGlobs_tree alpine mockListings mockParse ''/'' True SystemDirectories [])
              = Inr mockTree"
    by (simp add: mock_tree)
  have h2: "fst (findGlobs alpine mockListings mockParse endsWith joinSlash mockGlobs
                   [''/vendor/package.json''] ''/'' True SystemDirectories []) = Inr mockResult"
    by (simp add: mock_scan)
  obtain result where
    r: "fst (findGlobs alpine mockListings mockParse endsWith joinSlash mockGlobs
               [''/vendor/package.json''] ''/'' True SystemDirectories []) = Inr result"
    and d: "set (manifestFiles result) \<inter> set (binaryFiles result) = {}"
    using findGlobs_lists_disjoint [OF h1] by blast
  have e: "result = mockResult"
    using r h2 by simp
  have m: "\<lparr>name = ''package.json'', path = ''/app/''\<rparr> \<in> set (allFiles mockTree)"
    by (simp add: mockTree_def)
  have p: "fullPath joinSlash \<lparr>name = ''package.json'', path = ''/app/''\<rparr> = ''/app/package.json''"
    by (simp add: fullPath_def joinSlash_def)
  have c: "''/app/package.json'' \<notin> set (binaryFiles mockResult)
           \<and> ''/app/package.json'' \<in> set (manifestFiles mockResult)"
    by (simp add: mockResult_def)
  show ?thesis
    using h1 h2 d e m p c by blast
qed

section \<open>findGlobs: the scan from the root\<close>

text \<open>
  Claim C5. A recursive scan from \<^verbatim>\<open>"/"\<close> issues no recursive listing of \<^verbatim>\<open>"/" + n\<close> for any
  name \<open>n\<close> in \<^verbatim>\<open>excludeRootDirectories\<close>: no such invocation is among the calls of the scan,
  whether it returns or throws.
\<close>

theorem findGlobs_skips_excluded_root_directories:
  assumes "n \<in> set excludeRootDirectories"
  shows "lsCall d (''/'' @ n) True
           \<notin> set (snd (findGlobs d ex parseLsOutput minimatch join globs exclusionGlobs ''/'' True
                          excludeRootDirectories []))"
proof
  assume "lsCall d (''/'' @ n) True
           \<in> set (snd (findGlobs d ex parseLsOutput minimatch join globs exclusionGlobs ''/'' True
                          excludeRootDirectories []))"
  then have "lsCall d (''/'' @ n) True
               \<in> {lsCall d ''/'' False}
                 \<union> {lsCall d (''/'' @ m) True | m. m \<notin> set excludeRootDirectories}"
    using tree_calls [of d ex parseLsOutput excludeRootDirectories "[]"]
    by (auto simp: snd_findGlobs)
  then show False
    using assms by (auto simp: lsCall_inj)
qed

text \<open>
  The scenario of the spec: with \<^verbatim>\<open>["proc", "sys", "dev"]\<close> excluded, the scan of the small
  image lists none of \<^verbatim>\<open>/proc\<close>, \<^verbatim>\<open>/sys\<close> and \<^verbatim>\<open>/dev\<close> recursively.
\<close>

theorem findGlobs_skips_excluded_root_directories_witness:
  "''proc'' \<in> set [''proc'', ''sys'', ''dev'']
   \<and> lsCall alpine ''/proc'' True
       \<notin> set (snd (findGlobs alpine mockListings mockParse endsWith joinSlash mockGlobs
                      [''/vendor/package.json''] ''/'' True [''proc'', ''sys'', ''dev''] []))
   \<and> lsCall alpine ''/sys'' True
       \<notin> set (snd (findGlobs alpine mockListings mockParse endsWith joinSlash mockGlobs
                      [''/vendor/package.json''] ''/'' True [''proc'', ''sys'', ''dev''] []))
   \<and> lsCall alpine ''/dev'' True
       \<notin> set (snd (findGlobs alpine mockListings mockParse endsWith joinSlash mockGlobs
                      [''/vendor/package.json''] ''/'' True [''proc'', ''sys'', ''dev''] []))"
proof -
  have h1: "''proc'' \<in> set [''proc'', ''sys'', ''dev'']" by simp
  have h2: "''sys'' \<in> set [''proc'', ''sys'', ''dev'']" by simp
  have h3: "''dev'' \<in> set [''proc'', ''sys'', ''dev'']" by simp
  show ?thesis
    using h1
      findGlobs_skips_excluded_root_directories [OF h1, of alpine mockListings mockParse endsWith
        joinSlash mockGlobs "[''/vendor/package.json'']"]
      findGlobs_skips_excluded_root_directories [OF h2, of alpine mockListings mockParse endsWith
        joinSlash mockGlobs "[''/vendor/package.json'']"]
      findGlobs_skips_excluded_root_directories [OF h3, of alpine mockListings mockParse endsWith
        joinSlash mockGlobs "[''/vendor/package.json'']"]
    by simp
qed

text \<open>
  Claim C6. When a recursive scan from \<^verbatim>\<open>"/"\<close> returns, its result is the classification of
  the entries of a tree in which, for every top-level subdirectory that is not excluded, the
  entries are those of the subdirectory's recursive listing, in order, each with its \<^verbatim>\<open>path\<close>
  replaced by \<^verbatim>\<open>"/"\<close>, the subdirectory's name and the path it had; so each such path begins
  with \<^verbatim>\<open>"/"\<close> and the subdirectory's name.
\<close>

theorem findGlobs_reroots_subdirectory_entries:
  assumes "fst (findGlobs d ex parseLsOutput minimatch join globs exclusionGlobs ''/'' True
                  excludeRootDirectories calls) = Inr result"
  shows "\<exists>v root root'.
           listingOutput d ex ''/'' False = Some v \<and> parseLsOutput v = Inr root
         \<and> fst (findGlobs_tree d ex parseLsOutput ''/'' True excludeRootDirectories calls) = Inr root'
         \<and> result = classified minimatch join globs exclusionGlobs (allFiles root')
         \<and> allFiles root' = files root @ concat (map allFiles (subDirs root'))
         \<and> list_all2
             (\<lambda>subdir subdir'.
                dirName subdir \<notin> set excludeRootDirectories \<longrightarrow>
                  (\<exists>w t. listingOutput d ex (''/'' @ dirName subdir) True = Some w
                     \<and> parseLsOutput w = Inr t
                     \<and> allFiles subdir' = map (rerooted (dirName subdir)) (allFiles t)
                     \<and> (\<forall>f \<in> set (allFiles subdir'). prefix (''/'' @ dirName subdir) (path f))))
             (subDirs root) (subDirs root')"
proof -
  obtain root' where tr: "fst (findGlobs_tree d ex parseLsOutput ''/'' True excludeRootDirectories calls)
                            = Inr root'"
      and res: "result = classified minimatch join globs exclusionGlobs (allFiles root')"
    using assms by (auto simp: findGlobs_Inr')
  obtain v root sds c1 where lo: "listingOutput d ex ''/'' False = Some v"
      and p: "parseLsOutput v = Inr root"
      and s: "fst (findGlobs_subdirs d ex parseLsOutput excludeRootDirectories (subDirs root) c1) = Inr sds"
      and r: "root' = Dir (dirName root) sds (files root)"
    by (rule tree_root_Inr [OF tr])
  have af: "allFiles root' = files root @ concat (map allFiles (subDirs root'))"
    by (simp add: r)
  have pre: "\<forall>f \<in> set (map (rerooted n) fs). prefix (''/'' @ n) (path f)" for n fs
    by (simp add: rerooted_def)
  have la: "list_all2
             (\<lambda>subdir subdir'.
                dirName subdir \<notin> set excludeRootDirectories \<longrightarrow>
                  (\<exists>w t. listingOutput d ex (''/'' @ dirName subdir) True = Some w
                     \<and> parseLsOutput w = Inr t
                     \<and> allFiles subdir' = map (rerooted (dirName subdir)) (allFiles t)
                     \<and> (\<forall>f \<in> set (allFiles subdir'). prefix (''/'' @ dirName subdir) (path f))))
             (subDirs root) sds"
  proof (rule list_all2_mono [OF subdirs_Inr [OF s]])
    fix subdir subdir'
    assume h: "if dirName subdir \<in> set excludeRootDirectories then subdir' = subdir
               else \<exists>v t. listingOutput d ex (''/'' @ dirName subdir) True = Some v
                      \<and> parseLsOutput v = Inr t
                      \<and> dirName subdir' = dirName subdir
                      \<and> allFiles subdir' = map (rerooted (dirName subdir)) (allFiles t)"
    show "dirName subdir \<notin> set excludeRootDirectories \<longrightarrow>
            (\<exists>w t. listingOutput d ex (''/'' @ dirName subdir) True = Some w
               \<and> parseLsOutput w = Inr t
               \<and> allFiles subdir' = map (rerooted (dirName subdir)) (allFiles t)
               \<and> (\<forall>f \<in> set (allFiles subdir'). prefix (''/'' @ dirName subdir) (path f)))"
    proof
      assume ne: "dirName subdir \<notin> set excludeRootDirectories"
      then obtain w t where w: "listingOutput d ex (''/'' @ dirName subdir) True = Some w"
          and t: "parseLsOutput w = Inr t"
          and a: "allFiles subdir' = map (rerooted (dirName subdir)) (allFiles t)"
        using h by auto
      have "\<forall>f \<in> set (allFiles subdir'). prefix (''/'' @ dirName subdir) (path f)"
        unfolding a by (rule pre)
      then show "\<exists>w t. listingOutput d ex (''/'' @ dirName subdir) True = Some w
               \<and> parseLsOutput w = Inr t
               \<and> allFiles subdir' = map (rerooted (dirName subdir)) (allFiles t)
               \<and> (\<forall>f \<in> set (allFiles subdir'). prefix (''/'' @ dirName subdir) (path f))"
        using w t a by blast
    qed
  qed
  have sd: "subDirs root' = sds"
    by (simp add: r)
  show ?thesis
    apply (rule exI [of _ v])
    apply (rule exI [of _ root])
    apply (rule exI [of _ root'])
    apply (simp only: sd)
    apply (intro conjI)
         apply (rule lo)
        apply (rule p)
       apply (rule tr)
      apply (rule res)
     apply (rule af [unfolded sd])
    apply (rule la)
    done
qed

text \<open>
  The scan of the small image: the entries of \<^verbatim>\<open>/app\<close> and \<^verbatim>\<open>/usr\<close> are re-rooted, and
  the result is the classification of the four entries of the spliced tree.
\<close>

theorem findGlobs_reroots_subdirectory_entries_witness:
  "fst (findGlobs alpine mockListings mockParse endsWith joinSlash mockGlobs
          [''/vendor/package.json''] ''/'' True SystemDirectories []) = Inr mockResult
   \<and> (\<exists>v root root'.
           listingOutput alpine mockListings ''/'' False = Some v \<and> mockParse v = Inr root
         \<and> fst (findGlobs_tree alpine mockListings mockParse ''/'' True SystemDirectories []) = Inr root'
         \<and> mockResult = classified endsWith joinSlash mockGlobs [''/vendor/package.json'']
                           (allFiles root')
         \<and> allFiles root' = files root @ concat (map allFiles (subDirs root'))
         \<and> list_all2
             (\<lambda>subdir subdir'.
                dirName subdir \<notin> set SystemDirectories \<longrightarrow>
                  (\<exists>w t. listingOutput alpine mockListings (''/'' @ dirName subdir) True = Some w
                     \<and> mockParse w = Inr t
                     \<and> allFiles subdir' = map (rerooted (dirName subdir)) (allFiles t)
                     \<and> (\<forall>f \<in> set (allFiles subdir'). prefix (''/'' @ dirName subdir) (path f))))
             (subDirs root) (subDirs root'))
   \<and> allFiles mockTree =
        [\<lparr>name = ''.dockerenv'', path = ''/''\<rparr>,
         \<lparr>name = ''package.json'', path = ''/app/''\<rparr>,
         \<lparr>name = ''package.json'', path = ''/app/vendor''\<rparr>,
         \<lparr>name = ''node'', path = ''/usr/bin''\<rparr>]"
proof -
  have h1: "fst (findGlobs alpine mockListings mockParse endsWith joinSlash mockGlobs
                   [''/vendor/package.json''] ''/'' True SystemDirectories []) = Inr mockResult"
    by (simp add: mock_scan)
  have a: "allFiles mockTree =
        [\<lparr>name = ''.dockerenv'', path = ''/''\<rparr>,
         \<lparr>name = ''package.json'', path = ''/app/''\<rparr>,
         \<lparr>name = ''package.json'', path = ''/app/vendor''\<rparr>,
         \<lparr>name = ''node'', path = ''/usr/bin''\<rparr>]"
    by (simp add: mockTree_def)
  show ?thesis
    by (intro conjI h1 a findGlobs_reroots_subdirectory_entries [OF h1])
qed

text \<open>
  Claim C8. Two runs of \<^verbatim>\<open>findGlobs\<close> with the same arguments, against command runners
  whose listings give the same output for every path and recursion setting, either both
  throw or both return the same result: the same \<^verbatim>\<open>manifestFiles\<close> and the same
  \<^verbatim>\<open>binaryFiles\<close>, element for element. The calls issued before the run do not matter.
\<close>

theorem findGlobs_deterministic:
  assumes "\<forall>p r. listingOutput d ex1 p r = listingOutput d ex2 p r"
  shows "returned (fst (findGlobs d ex1 parseLsOutput minimatch join globs exclusionGlobs scanPath
                          recursive excludeRootDirectories calls1))
         = returned (fst (findGlobs d ex2 parseLsOutput minimatch join globs exclusionGlobs scanPath
                          recursive excludeRootDirectories calls2))"
proof -
  have "returned (fst (findGlobs_tree d ex1 parseLsOutput scanPath recursive excludeRootDirectories calls1))
        = returned (fst (findGlobs_tree d ex2 parseLsOutput scanPath recursive excludeRootDirectories calls2))"
    using assms by (intro tree_det) simp
  then show ?thesis
    by (simp only: findGlobs_returned)
qed

text \<open>
  A second run against a runner that gives the same listings with other warnings on
  \<^verbatim>\<open>stderr\<close>, after one call was already made, returns the result of the first.
\<close>

theorem findGlobs_deterministic_witness:
  "(\<forall>p r. listingOutput alpine mockListings p r = listingOutput alpine mockListingsNoisy p r)
   \<and> returned (fst (findGlobs alpine mockListings mockParse endsWith joinSlash mockGlobs
                      [''/vendor/package.json''] ''/'' True SystemDirectories []))
     = returned (fst (findGlobs alpine mockListingsNoisy mockParse endsWith joinSlash mockGlobs
                      [''/vendor/package.json''] ''/'' True SystemDirectories
                      [lsCall alpine ''/'' False]))
   \<and> returned (fst (findGlobs alpine mockListingsNoisy mockParse endsWith joinSlash mockGlobs
                      [''/vendor/package.json''] ''/'' True SystemDirectories
                      [lsCall alpine ''/'' False]))
     = Some mockResult"
proof -
  have h: "\<forall>p r. listingOutput alpine mockListings p r = listingOutput alpine mockListingsNoisy p r"
    by (simp add: noisy_same_listing)
  have e: "returned (fst (findGlobs alpine mockListings mockParse endsWith joinSlash mockGlobs
                      [''/vendor/package.json''] ''/'' True SystemDirectories []))
     = returned (fst (findGlobs alpine mockListingsNoisy mockParse endsWith joinSlash mockGlobs
                      [''/vendor/package.json''] ''/'' True SystemDirectories
                      [lsCall alpine ''/'' False]))"
    by (rule findGlobs_deterministic [OF h])
  have s: "returned (fst (findGlobs alpine mockListings mockParse endsWith joinSlash mockGlobs
                      [''/vendor/package.json''] ''/'' True SystemDirectories []))
            = Some mockResult"
    by (simp add: mock_scan returned_def)
  show ?thesis
    using h e s by simp
qed

section \<open>calcHashOfBinaryFiles: records, order and chunk errors\<close>

text \<open>
  Claim C3. When every file's stream reports its exit code as its last chunk,
  \<^verbatim>\<open>calcHashOfBinaryFiles\<close> returns one record for each file whose stream ends with exit
  code 0 and none for any other file; it is a total function of the streams and raises
  nothing.
\<close>

theorem calcHashOfBinaryFiles_records_clean_completions:
  assumes "\<forall>binaryFile \<in> set paths. exitCodeLast (fileStream d sx binaryFile)"
  shows "calcHashOfBinaryFiles d sx hexdigest basename dirname sha1 paths options =
           map (\<lambda>binaryFile.
                  recordOf hexdigest basename dirname (calcHash_hashType sha1 options) binaryFile
                    (fileStream d sx binaryFile))
             (filter (\<lambda>binaryFile. completedCleanly (fileStream d sx binaryFile)) paths)"
  by (rule calc_complete [OF assms])

text \<open>
  The scenario of the spec: of two files, the second ends with exit code 1, and the result
  is the record of the first.
\<close>

theorem calcHashOfBinaryFiles_records_clean_completions_witness:
  "exitCodeLast (fileStream alpine mockStreams ''/usr/bin/node'')
   \<and> exitCodeLast (fileStream alpine mockStreams ''/usr/bin/npm'')
   \<and> completedCleanly (fileStream alpine mockStreams ''/usr/bin/node'')
   \<and> \<not> completedCleanly (fileStream alpine mockStreams ''/usr/bin/npm'')
   \<and> calcHashOfBinaryFiles alpine mockStreams mockDigest lastSegment parentOf ''sha1''
         [''/usr/bin/node'', ''/usr/bin/npm''] None
       = [recordOf mockDigest lastSegment parentOf ''sha1'' ''/usr/bin/node''
            (fileStream alpine mockStreams ''/usr/bin/node'')]
   \<and> recordOf mockDigest lastSegment parentOf ''sha1'' ''/usr/bin/node''
         (fileStream alpine mockStreams ''/usr/bin/node'')
       = \<lparr>name = ''node'', path = ''/usr/bin'', hashType = ''sha1'', hash = ''sha1:ELFnode''\<rparr>"
proof -
  have h: "\<forall>binaryFile \<in> set [''/usr/bin/node'', ''/usr/bin/npm''].
             exitCodeLast (fileStream alpine mockStreams binaryFile)"
    by (simp add: mock_streams exitCodeLast_def)
  have c1: "completedCleanly (fileStream alpine mockStreams ''/usr/bin/node'')"
    by (simp add: mock_streams completedCleanly_def)
  have c2: "\<not> completedCleanly (fileStream alpine mockStreams ''/usr/bin/npm'')"
    by (simp add: mock_streams completedCleanly_def)
  have t: "calcHash_hashType ''sha1'' None = ''sha1''"
    by (simp add: calcHash_hashType_def)
  have r: "recordOf mockDigest lastSegment parentOf ''sha1'' ''/usr/bin/node''
             (fileStream alpine mockStreams ''/usr/bin/node'')
           = \<lparr>name = ''node'', path = ''/usr/bin'', hashType = ''sha1'', hash = ''sha1:ELFnode''\<rparr>"
    by (simp add: recordOf_def mock_streams hashedBytes_def isTruthy_def mockDigest_def
        lastSegment_def parentOf_def)
  show ?thesis
    using h c1 c2 r
      calcHashOfBinaryFiles_records_clean_completions
        [OF h, of mockDigest lastSegment parentOf "''sha1''" None]
    by (simp add: t)
qed

text \<open>
  Claim C7. Under the same condition on the streams, the records are in the order of the
  paths that produced them: their directory and base names are those of the successfully
  hashed paths, which are a subsequence of the paths supplied.
\<close>

theorem calcHashOfBinaryFiles_preserves_order:
  assumes "\<forall>binaryFile \<in> set paths. exitCodeLast (fileStream d sx binaryFile)"
  shows "map (\<lambda>r. (path r, name r))
             (calcHashOfBinaryFiles d sx hexdigest basename dirname sha1 paths options)
           = map (\<lambda>binaryFile. (dirname binaryFile, basename binaryFile))
               (filter (\<lambda>binaryFile. completedCleanly (fileStream d sx binaryFile)) paths)
         \<and> subseq (filter (\<lambda>binaryFile. completedCleanly (fileStream d sx binaryFile)) paths) paths"
  by (simp add: calc_complete [OF assms] recordOf_def comp_def)

text \<open>Three files, the first of which fails: the records are those of the other two, in order.\<close>

theorem calcHashOfBinaryFiles_preserves_order_witness:
  "exitCodeLast (fileStream alpine mockStreams ''/usr/bin/npm'')
   \<and> exitCodeLast (fileStream alpine mockStreams ''/usr/lib/libz.so'')
   \<and> exitCodeLast (fileStream alpine mockStreams ''/usr/bin/node'')
   \<and> map (\<lambda>r. (path r, name r))
         (calcHashOfBinaryFiles alpine mockStreams mockDigest lastSegment parentOf ''sha1''
            [''/usr/bin/npm'', ''/usr/lib/libz.so'', ''/usr/bin/node''] None)
       = [(''/usr/lib'', ''libz.so''), (''/usr/bin'', ''node'')]"
proof -
  have h: "\<forall>binaryFile \<in> set [''/usr/bin/npm'', ''/usr/lib/libz.so'', ''/usr/bin/node''].
             exitCodeLast (fileStream alpine mockStreams binaryFile)"
    by (simp add: mock_streams exitCodeLast_def)
  have k: "filter (\<lambda>binaryFile. completedCleanly (fileStream alpine mockStreams binaryFile))
             [''/usr/bin/npm'', ''/usr/lib/libz.so'', ''/usr/bin/node'']
           = [''/usr/lib/libz.so'', ''/usr/bin/node'']"
    by (simp add: mock_streams completedCleanly_def)
  note t = calcHashOfBinaryFiles_preserves_order
             [OF h, of mockDigest lastSegment parentOf "''sha1''" None, unfolded k]
  have e: "map (\<lambda>r. (path r, name r))
             (calcHashOfBinaryFiles alpine mockStreams mockDigest lastSegment parentOf ''sha1''
                [''/usr/bin/npm'', ''/usr/lib/libz.so'', ''/usr/bin/node''] None)
           = map (\<lambda>binaryFile. (parentOf binaryFile, lastSegment binaryFile))
               [''/usr/lib/libz.so'', ''/usr/bin/node'']"
    using t by (rule conjunct1)
  have v: "map (\<lambda>binaryFile. (parentOf binaryFile, lastSegment binaryFile))
             [''/usr/lib/libz.so'', ''/usr/bin/node'']
           = [(''/usr/lib'', ''libz.so''), (''/usr/bin'', ''node'')]"
    by (simp add: lastSegment_def parentOf_def)
  show ?thesis
    using h e v by simp
qed

text \<open>
  Claim C9. A chunk with an error flagged, followed later by a chunk with exit code 0,
  does not prevent the record: the record is emitted, and its digest is over the bytes of
  the other chunks, without those of the flagged chunk.
\<close>

theorem calcHashOfBinaryFiles_chunk_error_not_latched:
  assumes "fileStream d sx binaryFile = pre @ [bad] @ post @ [fin]"
    and "isTruthy (err bad)"
    and "exitCode fin = Some 0"
    and "list_all (\<lambda>sd. exitCode sd = None) (pre @ [bad] @ post)"
  shows "calcHashOfBinaryFiles d sx hexdigest basename dirname sha1 [binaryFile] options =
           [\<lparr>name = basename binaryFile, path = dirname binaryFile,
             hashType = calcHash_hashType sha1 options,
             hash = hexdigest (calcHash_hashType sha1 options)
                      (hashedBytes pre @ hashedBytes post @ hashedBytes [fin])\<rparr>]"
proof -
  have bl: "butlast (fileStream d sx binaryFile) = pre @ [bad] @ post"
    using assms(1) by (simp add: butlast_append)
  have wf: "\<forall>f \<in> set [binaryFile]. exitCodeLast (fileStream d sx f)"
    using assms(4) bl by (simp add: exitCodeLast_def)
  have cc: "completedCleanly (fileStream d sx binaryFile)"
    using assms(1,3) by (simp add: completedCleanly_def)
  have hb: "hashedBytes (fileStream d sx binaryFile)
              = hashedBytes pre @ hashedBytes post @ hashedBytes [fin]"
    using hashedBytes_err [OF assms(2)]
    by (simp add: assms(1) hashedBytes_append hashedBytes_Cons [of bad "post @ [fin]"])
  show ?thesis
    using cc by (simp add: calc_complete [OF wf] recordOf_def hb)
qed

text \<open>
  A stream of the chunks \<^verbatim>\<open>ab\<close>, \<^verbatim>\<open>cd\<close> with an error, \<^verbatim>\<open>ef\<close> and exit code 0 gives a
  record whose digest is over \<^verbatim>\<open>abef\<close>.
\<close>

theorem calcHashOfBinaryFiles_chunk_error_not_latched_witness:
  "fileStream alpine mockStreams ''/usr/lib/libz.so''
     = [\<lparr>data = Some ''ab'', err = None, exitCode = None\<rparr>]
       @ [\<lparr>data = Some ''cd'', err = Some ''cat: read error'', exitCode = None\<rparr>]
       @ [\<lparr>data = Some ''ef'', err = None, exitCode = None\<rparr>]
       @ [\<lparr>data = None, err = None, exitCode = Some 0\<rparr>]
   \<and> isTruthy (err \<lparr>data = Some ''cd'', err = Some ''cat: read error'', exitCode = None\<rparr>)
   \<and> calcHashOfBinaryFiles alpine mockStreams mockDigest lastSegment parentOf ''sha1''
         [''/usr/lib/libz.so''] (Some (HashOptions (Some ''md5'')))
       = [\<lparr>name = ''libz.so'', path = ''/usr/lib'', hashType = ''md5'', hash = ''md5:abef''\<rparr>]"
proof -
  let ?pre = "[\<lparr>data = Some ''ab'', err = None, exitCode = None\<rparr>]"
  let ?bad = "\<lparr>data = Some ''cd'', err = Some ''cat: read error'', exitCode = None\<rparr>"
  let ?post = "[\<lparr>data = Some ''ef'', err = None, exitCode = None\<rparr>]"
  let ?fin = "\<lparr>data = None, err = None, exitCode = Some 0\<rparr>"
  have h1: "fileStream alpine mockStreams ''/usr/lib/libz.so'' = ?pre @ [?bad] @ ?post @ [?fin]"
    by (simp add: mock_streams)
  have h2: "isTruthy (err ?bad)"
    by (simp add: isTruthy_def)
  have h3: "exitCode ?fin = Some 0"
    by simp
  have h4: "list_all (\<lambda>sd. exitCode sd = None) (?pre @ [?bad] @ ?post)"
    by simp
  have t: "calcHash_hashType ''sha1'' (Some (HashOptions (Some ''md5''))) = ''md5''"
    by (simp add: calcHash_hashType_def)
  have b: "hashedBytes ?pre @ hashedBytes ?post @ hashedBytes [?fin] = ''abef''"
    by (simp add: hashedBytes_def isTruthy_def)
  show ?thesis
    using h1 h2
      calcHashOfBinaryFiles_chunk_error_not_latched
        [OF h1 h2 h3 h4, of mockDigest lastSegment parentOf "''sha1''"
           "Some (HashOptions (Some ''md5''))"]
    by (simp add: t b mockDigest_def lastSegment_def parentOf_def)
qed

end
